theory Spec2Isabelle
  imports Complex_Main "HOL-Library.AList"
begin

section \<open>Values, signals and errors\<close>

text \<open>
  Python values that travel in payloads, metadata and health dictionaries. A \<open>dict\<close> is
  an association list in insertion order: \<open>map_of\<close> reads it, \<open>AList.update\<close> is
  \<^verbatim>\<open>d[k] = v\<close> (in place for a key that is present, appended for a new one) and
  \<open>AList.delete\<close> is \<^verbatim>\<open>d.pop(k, None)\<close>.
\<close>

datatype pyval =
    PNone
  | PBool bool
  | PInt int
  | PFloat real
  | PStr string
  | PList "pyval list"
  | PDict "(string \<times> pyval) list"

type_synonym pydict = "(string \<times> pyval) list"

text \<open>Python truth of a value, as \<^verbatim>\<open>if x:\<close> tests it.\<close>

fun truthy :: "pyval \<Rightarrow> bool" where
  "truthy PNone = False"
| "truthy (PBool b) = b"
| "truthy (PInt i) = (i \<noteq> 0)"
| "truthy (PFloat r) = (r \<noteq> 0)"
| "truthy (PStr s) = (s \<noteq> [])"
| "truthy (PList xs) = (xs \<noteq> [])"
| "truthy (PDict d) = (d \<noteq> [])"

text \<open>
  Modelled from the spec: \<^verbatim>\<open>SignalType\<close> and \<^verbatim>\<open>SubstrateSignal\<close> come from the module
  \<^verbatim>\<open>ng_ecosystem\<close>, which is not among the sources. The enumeration is closed with the
  five members of section 3, and \<^verbatim>\<open>.value\<close> is the lower-case name
  (\<^verbatim>\<open>tests/test_signal_format.py\<close>, \<^verbatim>\<open>test_enum_values\<close>).
\<close>

datatype SignalType = SENSORY | INFERENCE | HEALTH | MEMORY | IDENTITY

fun type_value :: "SignalType \<Rightarrow> string" where
  "type_value SENSORY = ''sensory''"
| "type_value INFERENCE = ''inference''"
| "type_value HEALTH = ''health''"
| "type_value MEMORY = ''memory''"
| "type_value IDENTITY = ''identity''"

record SubstrateSignal =
  signal_id :: string
  signal_type :: SignalType
  source_socket :: string
  payload :: pydict
  confidence :: real
  priority :: int
  timestamp :: real
  metadata :: pydict
  graph_encoding :: pyval

text \<open>
  Modelled from the spec: the factory \<^verbatim>\<open>SubstrateSignal.create\<close> (section 4.1). The fresh
  identity token and the wall-clock reading are inputs of the model.
\<close>

definition create ::
  "string \<Rightarrow> real \<Rightarrow> string \<Rightarrow> SignalType \<Rightarrow> pydict \<Rightarrow> real \<Rightarrow> int \<Rightarrow> pyval \<Rightarrow> pydict
    \<Rightarrow> SubstrateSignal" where
  "create uid now src ty pl conf prio enc md =
     \<lparr> signal_id = uid, signal_type = ty, source_socket = src, payload = pl,
       confidence = conf, priority = prio, timestamp = now, metadata = md,
       graph_encoding = enc \<rparr>"

text \<open>
  Modelled from the spec: \<^verbatim>\<open>with_updates(source_socket=..., metadata=...)\<close>, the only
  form the sources call. Every field that is not named keeps its value.
\<close>

definition with_updates :: "SubstrateSignal \<Rightarrow> string \<Rightarrow> pydict \<Rightarrow> SubstrateSignal" where
  "with_updates sg src md = sg\<lparr> source_socket := src, metadata := md \<rparr>"

text \<open>
  Exceptions as values. \<open>DuplicateRegistration sid\<close> is
  \<^verbatim>\<open>ValueError("Socket already registered: <sid>")\<close>, \<open>CapacityExceeded mx sid\<close> is
  \<^verbatim>\<open>ValueError("Socket limit reached (<mx>). Cannot register <sid>")\<close>,
  \<open>NotConnected name\<close> is \<^verbatim>\<open>RuntimeError("<name> not connected")\<close>, \<open>NotStarted\<close> is
  \<^verbatim>\<open>RuntimeError("Engine not started. Call start() first.")\<close>, and \<open>Raised msg\<close>
  is any other exception that a socket method raises.
\<close>

datatype error =
    DuplicateRegistration string
  | CapacityExceeded int string
  | NotConnected string
  | NotStarted
  | Raised string

section \<open>The socket contract\<close>

text \<open>
  \<^verbatim>\<open>ElmerSocket\<close> (\<^verbatim>\<open>core/base_socket.py\<close>). The instance fields are the record
  \<open>socket_state\<close>; the abstract methods are fields of the record \<open>ElmerSocket\<close>, each a
  function of the instance fields that returns the outcome together with the fields as
  the call left them, so that a method may change the object and still raise.
  \<open>bool_m\<close> is the truth value of the object, which \<^verbatim>\<open>if socket and ...\<close> tests: true
  for a class that defines neither \<^verbatim>\<open>__bool__\<close> nor \<^verbatim>\<open>__len__\<close>, as \<^verbatim>\<open>ElmerSocket\<close> and
  the two classes of the repository. The two
  wall-clock fields \<^verbatim>\<open>_connect_time\<close> and \<^verbatim>\<open>_last_process_time\<close>, and the \<^verbatim>\<open>uptime\<close> and
  \<^verbatim>\<open>last_process_time\<close> entries of the health dictionary computed from them, are left
  out.
\<close>

record socket_state =
  is_connected :: bool
  process_count :: int
  error_count :: int

record ElmerSocket =
  socket_id :: string
  socket_type :: string
  hardware_affinity :: string
  state :: socket_state
  connect_m :: "socket_state \<Rightarrow> error option \<times> socket_state"
  disconnect_m :: "socket_state \<Rightarrow> error option \<times> socket_state"
  process_m :: "socket_state \<Rightarrow> SubstrateSignal \<Rightarrow> (error + SubstrateSignal) \<times> socket_state"
  health_check_m :: "socket_state \<Rightarrow> error + pydict"
  bool_m :: "socket_state \<Rightarrow> bool"

definition init_state :: socket_state where
  "init_state = \<lparr> is_connected = False, process_count = 0, error_count = 0 \<rparr>"

definition base_health :: "string \<Rightarrow> string \<Rightarrow> socket_state \<Rightarrow> pydict" where
  "base_health sid stype s =
     [(''socket_id'', PStr sid), (''socket_type'', PStr stype),
      (''connected'', PBool (is_connected s)),
      (''process_count'', PInt (process_count s)),
      (''error_count'', PInt (error_count s))]"

subsection \<open>ComprehensionSocket and MonitoringSocket\<close>

text \<open>
  \<^verbatim>\<open>core/comprehension.py\<close> and \<^verbatim>\<open>core/monitoring.py\<close>. The two classes have the same
  \<^verbatim>\<open>connect\<close>, \<^verbatim>\<open>disconnect\<close> and \<^verbatim>\<open>health_check\<close>, written once here; each has its own
  \<^verbatim>\<open>process\<close>, which refuses a disconnected socket, counts the call and returns the signal
  with the socket's id as source and two more metadata entries.
\<close>

definition simple_connect :: "socket_state \<Rightarrow> error option \<times> socket_state" where
  "simple_connect s = (if is_connected s then (None, s) else (None, s\<lparr> is_connected := True \<rparr>))"

definition simple_disconnect :: "socket_state \<Rightarrow> error option \<times> socket_state" where
  "simple_disconnect s = (None, s\<lparr> is_connected := False \<rparr>)"

definition simple_health_check :: "string \<Rightarrow> string \<Rightarrow> socket_state \<Rightarrow> error + pydict" where
  "simple_health_check sid stype s =
     Inr (AList.update ''status'' (PStr (if is_connected s then ''healthy'' else ''offline''))
            (base_health sid stype s))"

definition comprehension_process ::
  "socket_state \<Rightarrow> SubstrateSignal \<Rightarrow> (error + SubstrateSignal) \<times> socket_state" where
  "comprehension_process s sg =
     (if \<not> is_connected s then (Inl (NotConnected ''ComprehensionSocket''), s)
      else
        (Inr (with_updates sg ''elmer:comprehension''
                (AList.update ''comprehension_version'' (PStr ''0.1.0'')
                   (AList.update ''comprehension_processed'' (PBool True) (metadata sg)))),
         s\<lparr> process_count := process_count s + 1 \<rparr>))"

definition ComprehensionSocket :: ElmerSocket where
  "ComprehensionSocket =
     \<lparr> socket_id = ''elmer:comprehension'', socket_type = ''sensory'',
       hardware_affinity = ''cpu'', state = init_state,
       connect_m = simple_connect, disconnect_m = simple_disconnect,
       process_m = comprehension_process,
       health_check_m = simple_health_check ''elmer:comprehension'' ''sensory'',
       bool_m = (\<lambda>s. True) \<rparr>"

definition monitoring_process ::
  "socket_state \<Rightarrow> SubstrateSignal \<Rightarrow> (error + SubstrateSignal) \<times> socket_state" where
  "monitoring_process s sg =
     (if \<not> is_connected s then (Inl (NotConnected ''MonitoringSocket''), s)
      else
        (Inr (with_updates sg ''elmer:monitoring''
                (AList.update ''monitoring_version'' (PStr ''0.1.0'')
                   (AList.update ''monitoring_processed'' (PBool True) (metadata sg)))),
         s\<lparr> process_count := process_count s + 1 \<rparr>))"

definition MonitoringSocket :: ElmerSocket where
  "MonitoringSocket =
     \<lparr> socket_id = ''elmer:monitoring'', socket_type = ''health'',
       hardware_affinity = ''cpu'', state = init_state,
       connect_m = simple_connect, disconnect_m = simple_disconnect,
       process_m = monitoring_process,
       health_check_m = simple_health_check ''elmer:monitoring'' ''health'',
       bool_m = (\<lambda>s. True) \<rparr>"

section \<open>The socket manager\<close>

text \<open>
  \<^verbatim>\<open>detect_hardware\<close> reads the host: the core count, what \<^verbatim>\<open>import torch\<close> finds and
  whether the ROCm directory exists. The host is an input of the model.
\<close>

datatype torch = NoTorch | TorchCuda "(string \<times> int) list" | TorchMps | TorchPlain

record host =
  cpu_count :: "int option"
  torch_probe :: torch
  rocm_isdir :: bool

datatype device = CudaDevice int string int | NamedDevice int string

record hardware_info =
  cpu_available :: bool
  cpu_cores :: int
  gpu_available :: bool
  gpu_devices :: "device list"
  cuda_available :: bool
  npu_available :: bool

fun cuda_devices :: "int \<Rightarrow> (string \<times> int) list \<Rightarrow> device list" where
  "cuda_devices i [] = []"
| "cuda_devices i ((name, mem) # ds) = CudaDevice i name mem # cuda_devices (i + 1) ds"

definition detect_hardware :: "host \<Rightarrow> hardware_info" where
  "detect_hardware h =
     (let hw0 = \<lparr> cpu_available = True,
                  cpu_cores = (case cpu_count h of None \<Rightarrow> 1 | Some n \<Rightarrow> if n = 0 then 1 else n),
                  gpu_available = False, gpu_devices = [], cuda_available = False,
                  npu_available = False \<rparr>;
          hw1 = (case torch_probe h of
                   TorchCuda ds \<Rightarrow>
                     hw0\<lparr> gpu_available := True, cuda_available := True,
                          gpu_devices := cuda_devices 0 ds \<rparr>
                 | TorchMps \<Rightarrow>
                     hw0\<lparr> gpu_available := True, gpu_devices := [NamedDevice 0 ''Apple MPS''] \<rparr>
                 | _ \<Rightarrow> hw0)
      in if \<not> gpu_available hw1 \<and> rocm_isdir h
         then hw1\<lparr> gpu_available := True, gpu_devices := [NamedDevice 0 ''AMD ROCm''] \<rparr>
         else hw1)"

text \<open>
  The records handed to the module logger \<^verbatim>\<open>elmer.socket_manager\<close>, in the order of the
  calls. The loggers of the other modules are not modelled.
\<close>

datatype log_record =
    LogRegistered string string string
  | LogDisconnectError string error
  | LogConnected string
  | LogConnectFailed string error
  | LogDisconnected string
  | LogProcessFailed string string error
  | LogHardware hardware_info

record SocketManager =
  sockets :: "(string \<times> ElmerSocket) list"
  type_index :: "(string \<times> string list) list"
  max_sockets :: int
  hardware :: "hardware_info option"
  mgr_started :: bool
  mgr_log :: "log_record list"

definition new_manager :: "int \<Rightarrow> SocketManager" where
  "new_manager mx =
     \<lparr> sockets = [], type_index = [], max_sockets = mx, hardware = None,
       mgr_started = False, mgr_log = [] \<rparr>"

subsection \<open>Registration\<close>

definition register :: "ElmerSocket \<Rightarrow> SocketManager \<Rightarrow> error option \<times> SocketManager" where
  "register sock m =
     (if map_of (sockets m) (socket_id sock) \<noteq> None
      then (Some (DuplicateRegistration (socket_id sock)), m)
      else if int (length (sockets m)) \<ge> max_sockets m
      then (Some (CapacityExceeded (max_sockets m) (socket_id sock)), m)
      else
        (let stype = socket_type sock;
             ti = (if map_of (type_index m) stype = None
                   then AList.update stype [] (type_index m) else type_index m);
             bucket = (case map_of ti stype of None \<Rightarrow> [] | Some b \<Rightarrow> b)
         in (None,
             m\<lparr> sockets := AList.update (socket_id sock) sock (sockets m),
                type_index := AList.update stype (bucket @ [socket_id sock]) ti,
                mgr_log := mgr_log m @
                  [LogRegistered (socket_id sock) (socket_type sock) (hardware_affinity sock)] \<rparr>)))"

definition unregister :: "string \<Rightarrow> SocketManager \<Rightarrow> SocketManager" where
  "unregister sid m =
     (case map_of (sockets m) sid of
        None \<Rightarrow> m
      | Some sock \<Rightarrow>
          (let stype = socket_type sock;
               ti = (case map_of (type_index m) stype of
                       None \<Rightarrow> type_index m
                     | Some b \<Rightarrow> AList.update stype (filter (\<lambda>x. x \<noteq> sid) b) (type_index m));
               lg = (if is_connected (state sock)
                     then (case fst (disconnect_m sock (state sock)) of
                             None \<Rightarrow> []
                           | Some exc \<Rightarrow> [LogDisconnectError sid exc])
                     else [])
           in m\<lparr> sockets := AList.delete sid (sockets m), type_index := ti,
                 mgr_log := mgr_log m @ lg \<rparr>))"

subsection \<open>Lifecycle\<close>

text \<open>
  The loop of \<^verbatim>\<open>connect_all\<close> over \<^verbatim>\<open>self._sockets.items()\<close>. Each socket is connected in
  the state it has in the registry; its new state is written back under its key; the
  outcome is stored in the result dictionary whether or not \<^verbatim>\<open>connect\<close> raised.
\<close>

fun connect_loop ::
  "(string \<times> ElmerSocket) list \<Rightarrow> SocketManager \<Rightarrow> (string \<times> bool) list
    \<Rightarrow> (string \<times> bool) list \<times> SocketManager" where
  "connect_loop [] m results = (results, m)"
| "connect_loop ((sid, sock) # items) m results =
     (case connect_m sock (state sock) of
        (None, s') \<Rightarrow>
          connect_loop items
            (m\<lparr> sockets := AList.update sid (sock\<lparr> state := s' \<rparr>) (sockets m),
                mgr_log := mgr_log m @ [LogConnected sid] \<rparr>)
            (AList.update sid True results)
      | (Some exc, s') \<Rightarrow>
          connect_loop items
            (m\<lparr> sockets := AList.update sid (sock\<lparr> state := s' \<rparr>) (sockets m),
                mgr_log := mgr_log m @ [LogConnectFailed sid exc] \<rparr>)
            (AList.update sid False results))"

definition connect_all :: "host \<Rightarrow> SocketManager \<Rightarrow> (string \<times> bool) list \<times> SocketManager" where
  "connect_all h m =
     (let m1 = (if hardware m = None
                then m\<lparr> hardware := Some (detect_hardware h),
                        mgr_log := mgr_log m @ [LogHardware (detect_hardware h)] \<rparr>
                else m);
          (results, m2) = connect_loop (sockets m1) m1 []
      in (results, m2\<lparr> mgr_started := True \<rparr>))"

fun disconnect_loop :: "(string \<times> ElmerSocket) list \<Rightarrow> SocketManager \<Rightarrow> SocketManager" where
  "disconnect_loop [] m = m"
| "disconnect_loop ((sid, sock) # items) m =
     (if is_connected (state sock)
      then (case disconnect_m sock (state sock) of
              (None, s') \<Rightarrow>
                disconnect_loop items
                  (m\<lparr> sockets := AList.update sid (sock\<lparr> state := s' \<rparr>) (sockets m),
                      mgr_log := mgr_log m @ [LogDisconnected sid] \<rparr>)
            | (Some exc, s') \<Rightarrow>
                disconnect_loop items
                  (m\<lparr> sockets := AList.update sid (sock\<lparr> state := s' \<rparr>) (sockets m),
                      mgr_log := mgr_log m @ [LogDisconnectError sid exc] \<rparr>))
      else disconnect_loop items m)"

definition disconnect_all :: "SocketManager \<Rightarrow> SocketManager" where
  "disconnect_all m = (disconnect_loop (sockets m) m)\<lparr> mgr_started := False \<rparr>"

text \<open>
  What \<^verbatim>\<open>connect_all\<close> does with one socket: whether its \<^verbatim>\<open>connect\<close> returns, and the
  socket as the call leaves it. \<open>is_hw_log\<close> picks the records that \<^verbatim>\<open>detect_hardware\<close>
  writes, one for each run of the detection.
\<close>

definition connect_ok :: "ElmerSocket \<Rightarrow> bool" where
  "connect_ok sock = (fst (connect_m sock (state sock)) = None)"

definition after_connect :: "ElmerSocket \<Rightarrow> ElmerSocket" where
  "after_connect sock = sock\<lparr> state := snd (connect_m sock (state sock)) \<rparr>"

fun is_hw_log :: "log_record \<Rightarrow> bool" where
  "is_hw_log (LogHardware hw) = True"
| "is_hw_log _ = False"

subsection \<open>Signal routing\<close>

text \<open>
  The loop of \<^verbatim>\<open>route_signal\<close> over the bucket. A socket that is registered, true as an
  object and connected is asked to process the signal. When it returns, its result is the result of the
  routing call; when it raises, the \<^verbatim>\<open>except\<close> clause logs the failure and the
  \<^verbatim>\<open>for\<close> loop goes on with the next id. The signal itself is returned when the loop ends.
\<close>

fun route_loop ::
  "string list \<Rightarrow> SocketManager \<Rightarrow> SubstrateSignal \<Rightarrow> SubstrateSignal \<times> SocketManager" where
  "route_loop [] m sg = (sg, m)"
| "route_loop (sid # sids) m sg =
     (case map_of (sockets m) sid of
        None \<Rightarrow> route_loop sids m sg
      | Some sock \<Rightarrow>
          if bool_m sock (state sock) \<and> is_connected (state sock)
          then (case process_m sock (state sock) sg of
                  (Inr result, s') \<Rightarrow>
                    (result, m\<lparr> sockets := AList.update sid (sock\<lparr> state := s' \<rparr>) (sockets m) \<rparr>)
                | (Inl exc, s') \<Rightarrow>
                    route_loop sids
                      (m\<lparr> sockets := AList.update sid (sock\<lparr> state := s' \<rparr>) (sockets m),
                          mgr_log := mgr_log m @ [LogProcessFailed sid (signal_id sg) exc] \<rparr>)
                      sg)
          else route_loop sids m sg)"

definition route_signal :: "SocketManager \<Rightarrow> SubstrateSignal \<Rightarrow> SubstrateSignal \<times> SocketManager" where
  "route_signal m sg =
     (let target_type = type_value (signal_type sg);
          socket_ids = (case map_of (type_index m) target_type of None \<Rightarrow> [] | Some b \<Rightarrow> b)
      in route_loop socket_ids m sg)"

definition get_socket :: "SocketManager \<Rightarrow> string \<Rightarrow> ElmerSocket option" where
  "get_socket m sid = map_of (sockets m) sid"

text \<open>
  The test of the routing loop, \<^verbatim>\<open>if socket and socket.is_connected\<close>: the id is
  registered, its socket is true as an object and is connected.
\<close>

definition live :: "SocketManager \<Rightarrow> string \<Rightarrow> bool" where
  "live m sid =
     (case map_of (sockets m) sid of
        None \<Rightarrow> False
      | Some sock \<Rightarrow> bool_m sock (state sock) \<and> is_connected (state sock))"

subsection \<open>Health\<close>

text \<open>
  An entry of the per-socket dictionary: \<open>Reported h\<close> is the dictionary the socket
  returned, \<open>Failed exc\<close> is \<^verbatim>\<open>{"status": "error", "error": str(exc)}\<close>.
\<close>

datatype health_entry = Reported pydict | Failed error

fun collect_health ::
  "(string \<times> ElmerSocket) list \<Rightarrow> (string \<times> health_entry) list \<Rightarrow> pyval list
    \<Rightarrow> (string \<times> health_entry) list \<times> pyval list" where
  "collect_health [] socket_health statuses = (socket_health, statuses)"
| "collect_health ((sid, sock) # items) socket_health statuses =
     (case health_check_m sock (state sock) of
        Inr h \<Rightarrow>
          collect_health items (AList.update sid (Reported h) socket_health)
            (statuses @ [case map_of h ''status'' of None \<Rightarrow> PStr ''unknown'' | Some v \<Rightarrow> v])
      | Inl exc \<Rightarrow>
          collect_health items (AList.update sid (Failed exc) socket_health)
            (statuses @ [PStr ''error'']))"

record health_report_t =
  hr_status :: string
  hr_socket_count :: int
  hr_connected_count :: int
  hr_hardware :: "hardware_info option"
  hr_sockets :: "(string \<times> health_entry) list"

definition health_report :: "SocketManager \<Rightarrow> health_report_t" where
  "health_report m =
     (let (socket_health, statuses) = collect_health (sockets m) [] [];
          overall =
            (if statuses = [] then ''no_sockets''
             else if list_all (\<lambda>s. s = PStr ''healthy'') statuses then ''healthy''
             else if list_all (\<lambda>s. s = PStr ''offline'' \<or> s = PStr ''error'') statuses
             then ''offline''
             else ''degraded'')
      in \<lparr> hr_status = overall,
           hr_socket_count = int (length (sockets m)),
           hr_connected_count =
             int (length (filter (\<lambda>(sid, s). is_connected (state s)) (sockets m))),
           hr_hardware = hardware m,
           hr_sockets = socket_health \<rparr>)"

text \<open>
  The status that the loop of \<^verbatim>\<open>health_report\<close> records for one socket: \<^verbatim>\<open>error\<close> when
  \<^verbatim>\<open>health_check\<close> raises, the \<^verbatim>\<open>status\<close> entry of the returned dictionary otherwise,
  \<^verbatim>\<open>unknown\<close> when the dictionary has none.
\<close>

definition reported_status :: "ElmerSocket \<Rightarrow> pyval" where
  "reported_status sock =
     (case health_check_m sock (state sock) of
        Inl exc \<Rightarrow> PStr ''error''
      | Inr h \<Rightarrow> (case map_of h ''status'' of None \<Rightarrow> PStr ''unknown'' | Some v \<Rightarrow> v))"

subsection \<open>Sequences of operations\<close>

text \<open>
  The operations of the manager that change it, and a run of a list of them. A
  \<^verbatim>\<open>register\<close> that raises leaves the manager as it was and the run goes on.
\<close>

datatype manager_op =
    Register ElmerSocket
  | Unregister string
  | ConnectAll host
  | DisconnectAll
  | RouteSignal SubstrateSignal

fun apply_op :: "manager_op \<Rightarrow> SocketManager \<Rightarrow> SocketManager" where
  "apply_op (Register sock) m = snd (register sock m)"
| "apply_op (Unregister sid) m = unregister sid m"
| "apply_op (ConnectAll h) m = snd (connect_all h m)"
| "apply_op DisconnectAll m = disconnect_all m"
| "apply_op (RouteSignal sg) m = snd (route_signal m sg)"

definition run_ops :: "manager_op list \<Rightarrow> SocketManager \<Rightarrow> SocketManager" where
  "run_ops ops m = fold apply_op ops m"

text \<open>
  The invariant of section 3. \<open>bucket_of\<close> reads a bucket as \<^verbatim>\<open>route_signal\<close> does, an
  absent one as empty. \<open>consistent\<close>: every id in a bucket is registered, and every
  registered id occurs exactly once in the bucket of its socket's type and in no other
  bucket. \<open>types_of\<close> is the socket type registered under each id; \<open>well_formed\<close> adds
  that the registry, a dictionary, has one entry per id.
\<close>

definition bucket_of :: "SocketManager \<Rightarrow> string \<Rightarrow> string list" where
  "bucket_of m t = (case map_of (type_index m) t of None \<Rightarrow> [] | Some b \<Rightarrow> b)"

definition consistent :: "SocketManager \<Rightarrow> bool" where
  "consistent m \<longleftrightarrow>
     (\<forall>t sid. sid \<in> set (bucket_of m t) \<longrightarrow> map_of (sockets m) sid \<noteq> None)
     \<and> (\<forall>sid sock. map_of (sockets m) sid = Some sock \<longrightarrow>
           count_list (bucket_of m (socket_type sock)) sid = 1
           \<and> (\<forall>t. t \<noteq> socket_type sock \<longrightarrow> sid \<notin> set (bucket_of m t)))"

definition types_of :: "SocketManager \<Rightarrow> string \<Rightarrow> string option" where
  "types_of m sid = map_option socket_type (map_of (sockets m) sid)"

definition well_formed :: "SocketManager \<Rightarrow> bool" where
  "well_formed m \<longleftrightarrow> consistent m \<and> distinct (map fst (sockets m))"

section \<open>Encoder and decoder\<close>

text \<open>
  \<^verbatim>\<open>GraphEncoder\<close> (\<^verbatim>\<open>runtime/graph_encoder.py\<close>). The embedding is a vector of 32-bit floats
  read from a SHA-256 digest, and the fallback text is Python's \<^verbatim>\<open>str\<close> of a dictionary:
  both are inputs of the model, \<open>embed_fn\<close> and \<open>str_of\<close>.
\<close>

fun extract_loop :: "string list \<Rightarrow> pydict \<Rightarrow> string option" where
  "extract_loop [] pl = None"
| "extract_loop (key # keys) pl =
     (case map_of pl key of
        Some (PStr s) \<Rightarrow> Some s
      | _ \<Rightarrow> extract_loop keys pl)"

definition extract_text :: "(pydict \<Rightarrow> string) \<Rightarrow> SubstrateSignal \<Rightarrow> string" where
  "extract_text str_of sg =
     (case extract_loop [''text'', ''content'', ''message'', ''query''] (payload sg) of
        Some s \<Rightarrow> s
      | None \<Rightarrow> str_of (payload sg))"

record graph_encoding_t =
  embedding :: "real list"
  target_id :: string
  enc_metadata :: pydict

definition encode ::
  "(string \<Rightarrow> real list) \<Rightarrow> (pydict \<Rightarrow> string) \<Rightarrow> SubstrateSignal \<Rightarrow> graph_encoding_t" where
  "encode embed_fn str_of sg =
     (let txt = extract_text str_of sg
      in \<lparr> embedding = embed_fn txt,
           target_id = type_value (signal_type sg) @ '':'' @ source_socket sg,
           enc_metadata =
             [(''signal_id'', PStr (signal_id sg)),
              (''signal_type'', PStr (type_value (signal_type sg))),
              (''source_socket'', PStr (source_socket sg)),
              (''confidence'', PFloat (confidence sg)),
              (''priority'', PInt (priority sg))] \<rparr>)"

text \<open>\<^verbatim>\<open>SignalDecoder.decode\<close> (\<^verbatim>\<open>runtime/signal_decoder.py\<close>): the output dictionary.\<close>

definition decode :: "SubstrateSignal \<Rightarrow> pydict" where
  "decode sg =
     [(''signal_id'', PStr (signal_id sg)),
      (''signal_type'', PStr (type_value (signal_type sg))),
      (''source_socket'', PStr (source_socket sg)),
      (''payload'', PDict (payload sg)),
      (''confidence'', PFloat (confidence sg)),
      (''priority'', PInt (priority sg)),
      (''metadata'', PDict (metadata sg)),
      (''graph_encoding'', graph_encoding sg)]"

text \<open>
  The keys the encoder tries, and two readings of "the first key found": the first key
  that is present in the payload, as the specification words it, and the first key whose
  value is a string, which is what the test in \<^verbatim>\<open>_extract_text\<close> asks for.
\<close>

definition text_keys :: "string list" where
  "text_keys = [''text'', ''content'', ''message'', ''query'']"

fun is_str :: "pyval \<Rightarrow> bool" where
  "is_str (PStr s) = True"
| "is_str _ = False"

definition first_present_key :: "pydict \<Rightarrow> string option" where
  "first_present_key pl = find (\<lambda>k. map_of pl k \<noteq> None) text_keys"

definition first_text_key :: "pydict \<Rightarrow> string option" where
  "first_text_key pl =
     find (\<lambda>k. case map_of pl k of None \<Rightarrow> False | Some v \<Rightarrow> is_str v) text_keys"

section \<open>The engine\<close>

text \<open>
  Modelled from the spec: the learning collaborator \<^verbatim>\<open>NGEcosystem\<close> of the module
  \<^verbatim>\<open>ng_ecosystem\<close>, which is not among the sources, with the operations the engine calls
  (section 6): its tier, \<^verbatim>\<open>get_context\<close> and \<^verbatim>\<open>stats\<close>, which return a value.
  \<^verbatim>\<open>shutdown\<close> returns nothing and leaves the engine as it is.
\<close>

record NGEcosystem =
  tier :: int
  get_context :: "real list \<Rightarrow> pyval"
  stats :: pyval

record ElmerConfig =
  version :: string
  cfg_max_sockets :: int

record ElmerEngine =
  config :: ElmerConfig
  socket_manager :: SocketManager
  ecosystem :: "NGEcosystem option"
  started :: bool
  eng_process_count :: int

definition new_engine :: "ElmerConfig \<Rightarrow> ElmerEngine" where
  "new_engine cfg =
     \<lparr> config = cfg, socket_manager = new_manager (cfg_max_sockets cfg),
       ecosystem = None, started = False, eng_process_count = 0 \<rparr>"

datatype start_report =
    AlreadyStarted
  | Started string "(string \<times> bool) list" int hardware_info

text \<open>
  \<^verbatim>\<open>start\<close>. \<open>eco_init\<close> is the outcome of \<^verbatim>\<open>NGEcosystem.get_instance\<close>: \<open>None\<close> when it
  raised, and the engine then runs without the collaborator. A \<^verbatim>\<open>register\<close> that raises
  ends the call with the sockets registered so far and the engine not started.
\<close>

definition start ::
  "NGEcosystem option \<Rightarrow> host \<Rightarrow> ElmerEngine \<Rightarrow> (error + start_report) \<times> ElmerEngine" where
  "start eco_init h e =
     (if started e then (Inr AlreadyStarted, e)
      else
        (case register ComprehensionSocket (socket_manager e) of
           (Some err, m1) \<Rightarrow> (Inl err, e\<lparr> socket_manager := m1 \<rparr>)
         | (None, m1) \<Rightarrow>
             (case register MonitoringSocket m1 of
                (Some err, m2) \<Rightarrow> (Inl err, e\<lparr> socket_manager := m2 \<rparr>)
              | (None, m2) \<Rightarrow>
                  (let (connect_results, m3) = connect_all h m2;
                       eco_tier = (case eco_init of None \<Rightarrow> 0 | Some eco \<Rightarrow> tier eco);
                       hw = detect_hardware h;
                       m4 = m3\<lparr> mgr_log := mgr_log m3 @ [LogHardware hw] \<rparr>
                   in (Inr (Started (version (config e)) connect_results eco_tier hw),
                       e\<lparr> socket_manager := m4, ecosystem := eco_init, started := True \<rparr>)))))"

definition stop :: "ElmerEngine \<Rightarrow> ElmerEngine" where
  "stop e =
     (if \<not> started e then e
      else e\<lparr> socket_manager := disconnect_all (socket_manager e), started := False \<rparr>)"

text \<open>
  \<^verbatim>\<open>process_text\<close>. \<open>uid\<close> and \<open>now\<close> are the identity token and the time that
  \<^verbatim>\<open>SubstrateSignal.create\<close> stamps. The encoder's dictionary always holds the key
  \<^verbatim>\<open>embedding\<close>, so with a collaborator present \<^verbatim>\<open>get_context\<close> is always called.
\<close>

definition process_text ::
  "(string \<Rightarrow> real list) \<Rightarrow> (pydict \<Rightarrow> string) \<Rightarrow> string \<Rightarrow> real \<Rightarrow> string \<Rightarrow> ElmerEngine
    \<Rightarrow> (error + pydict) \<times> ElmerEngine" where
  "process_text embed_fn str_of uid now txt e =
     (if \<not> started e then (Inl NotStarted, e)
      else
        (let count = eng_process_count e + 1;
             sg = create uid now ''engine:input'' SENSORY [(''text'', PStr txt)] 1 5 PNone
                    [(''process_id'', PInt count)];
             (processed, m') = route_signal (socket_manager e) sg;
             eco_result =
               (case ecosystem e of
                  None \<Rightarrow> PNone
                | Some eco \<Rightarrow> get_context eco (embedding (encode embed_fn str_of processed)));
             result = AList.update ''process_id'' (PInt count) (decode processed);
             result' = (if truthy eco_result
                        then AList.update ''ecosystem'' eco_result result else result)
         in (Inr result', e\<lparr> socket_manager := m', eng_process_count := count \<rparr>)))"

record engine_health =
  eh_status :: string
  eh_version :: string
  eh_process_count :: int
  eh_sockets :: health_report_t
  eh_ecosystem :: pyval

definition health :: "ElmerEngine \<Rightarrow> engine_health" where
  "health e =
     \<lparr> eh_status = (if started e then ''healthy'' else ''offline''),
       eh_version = version (config e),
       eh_process_count = eng_process_count e,
       eh_sockets = health_report (socket_manager e),
       eh_ecosystem = (case ecosystem e of None \<Rightarrow> PNone | Some eco \<Rightarrow> stats eco) \<rparr>"

text \<open>How many signals the socket registered under an id has processed.\<close>

definition processed_by :: "SocketManager \<Rightarrow> string \<Rightarrow> int option" where
  "processed_by m sid = map_option (\<lambda>sock. process_count (state sock)) (map_of (sockets m) sid)"

text \<open>The \<^verbatim>\<open>process_id\<close> entry of what \<^verbatim>\<open>process_text\<close> returned, if it returned.\<close>

definition process_id_of :: "error + pydict \<Rightarrow> pyval option" where
  "process_id_of r = (case r of Inl err \<Rightarrow> None | Inr d \<Rightarrow> map_of d ''process_id'')"

section \<open>Example configurations\<close>

text \<open>A manager of capacity one that holds the comprehension socket.\<close>

definition mgr_one :: SocketManager where
  "mgr_one = snd (register ComprehensionSocket (new_manager 1))"

text \<open>
  A host without accelerators; a sensory socket whose \<^verbatim>\<open>process\<close> always raises; managers
  built with \<^verbatim>\<open>register\<close> and \<^verbatim>\<open>connect_all\<close>; three signals.
\<close>

definition host0 :: host where
  "host0 = \<lparr> cpu_count = Some 4, torch_probe = NoTorch, rocm_isdir = False \<rparr>"

definition FlakySocket :: ElmerSocket where
  "FlakySocket =
     \<lparr> socket_id = ''test:flaky'', socket_type = ''sensory'',
       hardware_affinity = ''cpu'', state = init_state,
       connect_m = simple_connect, disconnect_m = simple_disconnect,
       process_m = (\<lambda>s sg. (Inl (Raised ''boom''), s\<lparr> error_count := error_count s + 1 \<rparr>)),
       health_check_m = simple_health_check ''test:flaky'' ''sensory'',
       bool_m = (\<lambda>s. True) \<rparr>"

definition mgr_flaky :: SocketManager where
  "mgr_flaky =
     snd (connect_all host0
       (snd (register ComprehensionSocket (snd (register FlakySocket (new_manager 16))))))"

definition sig_hello :: SubstrateSignal where
  "sig_hello = create ''id-1'' 0 ''test:input'' SENSORY [(''text'', PStr ''route me'')] 1 5 PNone []"

definition mgr_two :: SocketManager where
  "mgr_two =
     snd (connect_all host0
       (snd (register MonitoringSocket (snd (register ComprehensionSocket (new_manager 16))))))"

definition sig_health :: SubstrateSignal where
  "sig_health = create ''id-6'' 0 ''test:input'' HEALTH [(''status'', PStr ''check'')] 1 5 PNone []"

definition sig_memo :: SubstrateSignal where
  "sig_memo = create ''id-2'' 0 ''test:input'' MEMORY [(''query'', PStr ''something'')] 1 5 PNone []"

text \<open>
  A sensory socket that follows the contract of \<^verbatim>\<open>ElmerSocket.process\<close> (it refuses when
  disconnected, counts the call and returns a new signal) and keeps the source of its
  input; a manager that holds it, connected.
\<close>

definition echo_process ::
  "socket_state \<Rightarrow> SubstrateSignal \<Rightarrow> (error + SubstrateSignal) \<times> socket_state" where
  "echo_process s sg =
     (if \<not> is_connected s then (Inl (NotConnected ''EchoSocket''), s)
      else
        (Inr (with_updates sg (source_socket sg)
                (AList.update ''echoed'' (PBool True) (metadata sg))),
         s\<lparr> process_count := process_count s + 1 \<rparr>))"

definition EchoSocket :: ElmerSocket where
  "EchoSocket =
     \<lparr> socket_id = ''test:echo'', socket_type = ''sensory'',
       hardware_affinity = ''cpu'', state = init_state,
       connect_m = simple_connect, disconnect_m = simple_disconnect,
       process_m = echo_process,
       health_check_m = simple_health_check ''test:echo'' ''sensory'',
       bool_m = (\<lambda>s. True) \<rparr>"

definition mgr_echo :: SocketManager where
  "mgr_echo = snd (connect_all host0 (snd (register EchoSocket (new_manager 16))))"

text \<open>
  Two signals whose \<^verbatim>\<open>text\<close> entry is a number; an engine started without collaborator;
  the same engine with every socket disconnected.
\<close>

definition sig_mixed :: SubstrateSignal where
  "sig_mixed = create ''id-3'' 0 ''test:input'' SENSORY
     [(''text'', PInt 5), (''content'', PStr ''hi'')] 1 5 PNone []"

definition sig_number :: SubstrateSignal where
  "sig_number = create ''id-4'' 0 ''test:input'' SENSORY [(''text'', PInt 5)] 1 5 PNone []"

text \<open>Stand-ins for the embedding and for Python's \<^verbatim>\<open>str\<close> of a dictionary.\<close>

definition embed_stub :: "string \<Rightarrow> real list" where
  "embed_stub txt = []"

definition str_stub :: "pydict \<Rightarrow> string" where
  "str_stub pl = ''fallback''"

definition cfg0 :: ElmerConfig where
  "cfg0 = \<lparr> version = ''0.1.0'', cfg_max_sockets = 16 \<rparr>"

definition engine_started :: ElmerEngine where
  "engine_started = snd (start None host0 (new_engine cfg0))"

definition engine_dark :: ElmerEngine where
  "engine_dark = engine_started\<lparr> socket_manager := disconnect_all (socket_manager engine_started) \<rparr>"

text \<open>
  Two sockets of which only the first is connected; two sockets, neither connected.
\<close>

definition mgr_half :: SocketManager where
  "mgr_half =
     snd (register MonitoringSocket
       (snd (connect_all host0 (snd (register ComprehensionSocket (new_manager 16))))))"

definition mgr_cold :: SocketManager where
  "mgr_cold =
     snd (register MonitoringSocket (snd (register ComprehensionSocket (new_manager 16))))"

text \<open>
  A socket whose \<^verbatim>\<open>connect\<close> always raises, registered between the two stock sockets; a
  host with a ROCm directory.
\<close>

definition StubbornSocket :: ElmerSocket where
  "StubbornSocket =
     \<lparr> socket_id = ''test:stubborn'', socket_type = ''memory'',
       hardware_affinity = ''gpu'', state = init_state,
       connect_m = (\<lambda>s. (Some (Raised ''no device''), s)),
       disconnect_m = simple_disconnect,
       process_m = (\<lambda>s sg. (Inl (NotConnected ''StubbornSocket''), s)),
       health_check_m = simple_health_check ''test:stubborn'' ''memory'',
       bool_m = (\<lambda>s. True) \<rparr>"

definition mgr_three :: SocketManager where
  "mgr_three =
     snd (register MonitoringSocket
       (snd (register StubbornSocket (snd (register ComprehensionSocket (new_manager 16))))))"

definition host_rocm :: host where
  "host_rocm = \<lparr> cpu_count = None, torch_probe = TorchPlain, rocm_isdir = True \<rparr>"

text \<open>A run that registers, connects, routes, unregisters and registers a duplicate.\<close>

definition ops_demo :: "manager_op list" where
  "ops_demo =
     [Register FlakySocket, Register ComprehensionSocket, ConnectAll host0,
      RouteSignal sig_memo, Unregister ''test:flaky'', Register ComprehensionSocket]"

section \<open>Properties of registration\<close>

lemma update_fresh: "map_of al k = None \<Longrightarrow> AList.update k v al = al @ [(k, v)]"
  by (induction al) (auto split: if_splits)

lemma comp_fields [simp]:
  "socket_id ComprehensionSocket = ''elmer:comprehension''"
  "socket_type ComprehensionSocket = ''sensory''"
  "hardware_affinity ComprehensionSocket = ''cpu''"
  "state ComprehensionSocket = init_state"
  "connect_m ComprehensionSocket = simple_connect"
  "disconnect_m ComprehensionSocket = simple_disconnect"
  "process_m ComprehensionSocket = comprehension_process"
  "health_check_m ComprehensionSocket = simple_health_check ''elmer:comprehension'' ''sensory''"
  "bool_m ComprehensionSocket s = True"
  by (simp_all add: ComprehensionSocket_def)

lemma flaky_fields [simp]:
  "socket_id FlakySocket = ''test:flaky''"
  "socket_type FlakySocket = ''sensory''"
  "hardware_affinity FlakySocket = ''cpu''"
  "state FlakySocket = init_state"
  "connect_m FlakySocket = simple_connect"
  "disconnect_m FlakySocket = simple_disconnect"
  "process_m FlakySocket = (\<lambda>s sg. (Inl (Raised ''boom''), s\<lparr> error_count := error_count s + 1 \<rparr>))"
  "bool_m FlakySocket s = True"
  by (simp_all add: FlakySocket_def)

lemma moni_fields [simp]:
  "socket_id MonitoringSocket = ''elmer:monitoring''"
  "socket_type MonitoringSocket = ''health''"
  "hardware_affinity MonitoringSocket = ''cpu''"
  "state MonitoringSocket = init_state"
  "connect_m MonitoringSocket = simple_connect"
  "disconnect_m MonitoringSocket = simple_disconnect"
  "process_m MonitoringSocket = monitoring_process"
  "health_check_m MonitoringSocket = simple_health_check ''elmer:monitoring'' ''health''"
  "bool_m MonitoringSocket s = True"
  by (simp_all add: MonitoringSocket_def)

lemma sig_hello_fields [simp]:
  "signal_type sig_hello = SENSORY" "signal_id sig_hello = ''id-1''"
  "source_socket sig_hello = ''test:input''" "metadata sig_hello = []"
  by (simp_all add: sig_hello_def create_def)

lemma mgr_one_sockets: "sockets mgr_one = [(''elmer:comprehension'', ComprehensionSocket)]"
  by (simp add: mgr_one_def register_def new_manager_def ComprehensionSocket_def Let_def)

lemma mgr_one_max: "max_sockets mgr_one = 1"
  by (simp add: mgr_one_def register_def new_manager_def ComprehensionSocket_def Let_def)

text \<open>
  Claim C4. \<^verbatim>\<open>register\<close> raises the duplicate-id error when the socket's id is in the
  registry, and the capacity error when the id is new and the registry holds
  \<^verbatim>\<open>max_sockets\<close> sockets or more; in both cases the manager is exactly as before.
  Otherwise it succeeds: the socket is added at the end of the registry, its id is
  appended to the bucket of its type, and every other bucket is as before.
\<close>

theorem register_outcomes:
  "(map_of (sockets m) (socket_id sock) \<noteq> None \<longrightarrow>
      register sock m = (Some (DuplicateRegistration (socket_id sock)), m))
   \<and> (map_of (sockets m) (socket_id sock) = None \<and> max_sockets m \<le> int (length (sockets m)) \<longrightarrow>
      register sock m = (Some (CapacityExceeded (max_sockets m) (socket_id sock)), m))
   \<and> (map_of (sockets m) (socket_id sock) = None \<and> int (length (sockets m)) < max_sockets m \<longrightarrow>
      fst (register sock m) = None
      \<and> sockets (snd (register sock m)) = sockets m @ [(socket_id sock, sock)]
      \<and> map_of (type_index (snd (register sock m))) (socket_type sock)
          = Some ((case map_of (type_index m) (socket_type sock) of None \<Rightarrow> [] | Some b \<Rightarrow> b)
                  @ [socket_id sock])
      \<and> (\<forall>t. t \<noteq> socket_type sock \<longrightarrow>
            map_of (type_index (snd (register sock m))) t = map_of (type_index m) t))"
  by (auto simp: register_def Let_def update_fresh AList.update_conv' map_add_def
      split: option.splits)

theorem register_outcomes_witness:
  "register ComprehensionSocket mgr_one
     = (Some (DuplicateRegistration ''elmer:comprehension''), mgr_one)
   \<and> register MonitoringSocket mgr_one = (Some (CapacityExceeded 1 ''elmer:monitoring''), mgr_one)
   \<and> fst (register ComprehensionSocket (new_manager 1)) = None
   \<and> sockets mgr_one = [(''elmer:comprehension'', ComprehensionSocket)]
   \<and> map_of (type_index mgr_one) ''sensory'' = Some [''elmer:comprehension'']"
  using register_outcomes [of mgr_one ComprehensionSocket]
    register_outcomes [of mgr_one MonitoringSocket]
    register_outcomes [of "new_manager 1" ComprehensionSocket]
  by (simp add: mgr_one_sockets mgr_one_max)
     (simp add: mgr_one_def new_manager_def ComprehensionSocket_def MonitoringSocket_def)

section \<open>Properties of routing\<close>

lemma route_loop_skip:
  "\<forall>x\<in>set pre. \<not> live m x \<Longrightarrow> route_loop (pre @ rest) m sg = route_loop rest m sg"
  by (induction pre) (auto simp: live_def split: option.splits)

lemma route_loop_dead:
  "\<forall>x\<in>set b. \<not> live m x \<Longrightarrow> route_loop b m sg = (sg, m)"
  using route_loop_skip [of b m "[]" sg] by simp

lemma mgr_flaky_sockets:
  "sockets mgr_flaky =
     [(''test:flaky'', FlakySocket\<lparr> state := init_state\<lparr> is_connected := True \<rparr> \<rparr>),
      (''elmer:comprehension'', ComprehensionSocket\<lparr> state := init_state\<lparr> is_connected := True \<rparr> \<rparr>)]"
  by (simp add: mgr_flaky_def connect_all_def register_def new_manager_def Let_def
      simple_connect_def init_state_def)

lemma mgr_flaky_index:
  "type_index mgr_flaky = [(''sensory'', [''test:flaky'', ''elmer:comprehension''])]"
  by (simp add: mgr_flaky_def connect_all_def register_def new_manager_def Let_def
      simple_connect_def init_state_def)


lemma mgr_two_sockets:
  "sockets mgr_two =
     [(''elmer:comprehension'', ComprehensionSocket\<lparr> state := init_state\<lparr> is_connected := True \<rparr> \<rparr>),
      (''elmer:monitoring'', MonitoringSocket\<lparr> state := init_state\<lparr> is_connected := True \<rparr> \<rparr>)]"
  by (simp add: mgr_two_def connect_all_def register_def new_manager_def Let_def
      simple_connect_def init_state_def)

lemma mgr_two_index:
  "type_index mgr_two = [(''sensory'', [''elmer:comprehension'']), (''health'', [''elmer:monitoring''])]"
  by (simp add: mgr_two_def connect_all_def register_def new_manager_def Let_def
      simple_connect_def init_state_def)

lemma mgr_one_index: "type_index mgr_one = [(''sensory'', [''elmer:comprehension''])]"
  by (simp add: mgr_one_def register_def new_manager_def Let_def)

lemma route_flaky_result:
  "fst (route_signal mgr_flaky sig_hello)
     = with_updates sig_hello ''elmer:comprehension''
         [(''comprehension_processed'', PBool True), (''comprehension_version'', PStr ''0.1.0'')]"
  by (simp add: route_signal_def mgr_flaky_index mgr_flaky_sockets comprehension_process_def
      init_state_def)

lemma route_flaky_counts:
  "processed_by (snd (route_signal mgr_flaky sig_hello)) ''test:flaky'' = Some 0"
  "processed_by (snd (route_signal mgr_flaky sig_hello)) ''elmer:comprehension'' = Some 1"
  by (simp_all add: processed_by_def route_signal_def mgr_flaky_index mgr_flaky_sockets
      comprehension_process_def init_state_def)

lemma live_update_other:
  "x \<noteq> sid \<Longrightarrow>
   live (m\<lparr> sockets := AList.update sid v (sockets m), mgr_log := lg \<rparr>) x = live m x"
  by (simp add: live_def AList.update_conv')

text \<open>
  Claim C2. When the type index has no bucket for the signal's type, or the bucket is
  empty, or no id in the bucket passes the routing test (in particular when none is that
  of a connected socket), \<^verbatim>\<open>route_signal\<close> returns the signal it was given, and the
  manager is as before.
\<close>

theorem route_signal_pass_through:
  assumes "map_of (type_index m) (type_value (signal_type sg)) = None
           \<or> (\<exists>b. map_of (type_index m) (type_value (signal_type sg)) = Some b
                   \<and> (\<forall>x\<in>set b. \<not> live m x))"
  shows "route_signal m sg = (sg, m)"
  using assms by (auto simp: route_signal_def route_loop_dead)

theorem route_signal_pass_through_witness:
  "route_signal mgr_one sig_hello = (sig_hello, mgr_one)
   \<and> route_signal mgr_two sig_memo = (sig_memo, mgr_two)"
proof -
  have a: "map_of (type_index mgr_one) (type_value (signal_type sig_hello)) = None
           \<or> (\<exists>b. map_of (type_index mgr_one) (type_value (signal_type sig_hello)) = Some b
                   \<and> (\<forall>x\<in>set b. \<not> live mgr_one x))"
    by (simp add: mgr_one_index live_def mgr_one_sockets init_state_def)
  have b: "map_of (type_index mgr_two) (type_value (signal_type sig_memo)) = None
           \<or> (\<exists>b. map_of (type_index mgr_two) (type_value (signal_type sig_memo)) = Some b
                   \<and> (\<forall>x\<in>set b. \<not> live mgr_two x))"
    by (simp add: mgr_two_index sig_memo_def create_def)
  show ?thesis
    using route_signal_pass_through [OF a] route_signal_pass_through [OF b] by simp
qed

lemma echo_fields [simp]:
  "socket_id EchoSocket = ''test:echo''"
  "socket_type EchoSocket = ''sensory''"
  "state EchoSocket = init_state"
  "connect_m EchoSocket = simple_connect"
  "process_m EchoSocket = echo_process"
  "bool_m EchoSocket s = True"
  by (simp_all add: EchoSocket_def)

lemma mgr_echo_sockets:
  "sockets mgr_echo =
     [(''test:echo'', EchoSocket\<lparr> state := init_state\<lparr> is_connected := True \<rparr> \<rparr>)]"
  by (simp add: mgr_echo_def connect_all_def register_def new_manager_def Let_def
      simple_connect_def init_state_def)

lemma mgr_echo_index: "type_index mgr_echo = [(''sensory'', [''test:echo''])]"
  by (simp add: mgr_echo_def connect_all_def register_def new_manager_def Let_def
      simple_connect_def init_state_def)

lemma route_echo_result:
  "fst (route_signal mgr_echo sig_hello)
     = with_updates sig_hello ''test:input'' [(''echoed'', PBool True)]"
  by (simp add: route_signal_def mgr_echo_index mgr_echo_sockets echo_process_def init_state_def)

text \<open>
  Claim C3, as stated, fails for a socket that is not one of the two classes of the
  repository: \<^verbatim>\<open>route_signal\<close> returns what the socket's \<^verbatim>\<open>process\<close> returns and stamps
  nothing itself, so a registered, connected socket whose \<^verbatim>\<open>process\<close> succeeds and
  keeps the source of its input gives back a signal whose source socket is not the
  socket's id.
\<close>

theorem route_signal_source_counterexample:
  "map_of (type_index mgr_echo) (type_value (signal_type sig_hello)) = Some [''test:echo'']
   \<and> live mgr_echo ''test:echo''
   \<and> fst (process_m EchoSocket (init_state\<lparr> is_connected := True \<rparr>) sig_hello)
       = Inr (with_updates sig_hello ''test:input'' [(''echoed'', PBool True)])
   \<and> source_socket (fst (route_signal mgr_echo sig_hello)) = ''test:input''
   \<and> socket_id EchoSocket = ''test:echo''
   \<and> source_socket (fst (route_signal mgr_echo sig_hello)) \<noteq> socket_id EchoSocket"
proof -
  have idx: "map_of (type_index mgr_echo) (type_value (signal_type sig_hello))
      = Some [''test:echo'']"
    by (simp add: mgr_echo_index)
  have lv: "live mgr_echo ''test:echo''"
    by (simp add: live_def mgr_echo_sockets)
  have pr: "fst (process_m EchoSocket (init_state\<lparr> is_connected := True \<rparr>) sig_hello)
       = Inr (with_updates sig_hello ''test:input'' [(''echoed'', PBool True)])"
    by (simp add: echo_process_def)
  have src: "source_socket (fst (route_signal mgr_echo sig_hello)) = ''test:input''"
    by (simp add: route_echo_result with_updates_def)
  have ne: "source_socket (fst (route_signal mgr_echo sig_hello)) \<noteq> socket_id EchoSocket"
    by (simp add: src)
  show ?thesis using idx lv pr src ne by simp
qed

text \<open>
  Claim C3, amended. When the first socket of the signal's bucket, in bucket order, that
  passes the routing test (registered, true as an object, connected) processes the
  signal without raising, \<^verbatim>\<open>route_signal\<close> returns that socket's result and records the
  socket's new state; when the socket is a \<^verbatim>\<open>ComprehensionSocket\<close> or a
  \<^verbatim>\<open>MonitoringSocket\<close>, the source socket of the returned signal is the socket's id.
\<close>

theorem route_signal_first_connected:
  assumes bucket: "map_of (type_index m) (type_value (signal_type sg)) = Some (pre @ sid # rest)"
    and pre: "\<forall>x\<in>set pre. \<not> live m x"
    and sock: "map_of (sockets m) sid = Some sock"
    and truthy: "bool_m sock (state sock)"
    and conn: "is_connected (state sock)"
    and ok: "process_m sock (state sock) sg = (Inr r, s')"
  shows "route_signal m sg
           = (r, m\<lparr> sockets := AList.update sid (sock\<lparr> state := s' \<rparr>) (sockets m) \<rparr>)
         \<and> ((\<exists>s. sock = ComprehensionSocket\<lparr> state := s \<rparr> \<or> sock = MonitoringSocket\<lparr> state := s \<rparr>)
              \<longrightarrow> source_socket (fst (route_signal m sg)) = socket_id sock)"
proof -
  have step: "route_signal m sg
           = (r, m\<lparr> sockets := AList.update sid (sock\<lparr> state := s' \<rparr>) (sockets m) \<rparr>)"
    using bucket pre sock truthy conn ok by (simp add: route_signal_def route_loop_skip)
  have "source_socket r = socket_id sock"
    if "\<exists>s. sock = ComprehensionSocket\<lparr> state := s \<rparr> \<or> sock = MonitoringSocket\<lparr> state := s \<rparr>"
    using that ok conn
    by (auto simp: comprehension_process_def monitoring_process_def with_updates_def
        split: if_splits)
  with step show ?thesis by simp
qed

theorem route_signal_first_connected_witness:
  "source_socket (fst (route_signal mgr_two sig_hello)) = ''elmer:comprehension''
   \<and> metadata (fst (route_signal mgr_two sig_hello))
       = [(''comprehension_processed'', PBool True), (''comprehension_version'', PStr ''0.1.0'')]
   \<and> source_socket (fst (route_signal mgr_two sig_health)) = ''elmer:monitoring''
   \<and> metadata (fst (route_signal mgr_two sig_health))
       = [(''monitoring_processed'', PBool True), (''monitoring_version'', PStr ''0.1.0'')]"
proof -
  let ?co = "ComprehensionSocket\<lparr> state := init_state\<lparr> is_connected := True \<rparr> \<rparr>"
  let ?mo = "MonitoringSocket\<lparr> state := init_state\<lparr> is_connected := True \<rparr> \<rparr>"
  let ?s1 = "init_state\<lparr> is_connected := True, process_count := 1 \<rparr>"
  let ?r = "with_updates sig_hello ''elmer:comprehension''
         [(''comprehension_processed'', PBool True), (''comprehension_version'', PStr ''0.1.0'')]"
  let ?q = "with_updates sig_health ''elmer:monitoring''
         [(''monitoring_processed'', PBool True), (''monitoring_version'', PStr ''0.1.0'')]"
  have b: "map_of (type_index mgr_two) (type_value (signal_type sig_hello))
              = Some ([] @ ''elmer:comprehension'' # [])"
    by (simp add: mgr_two_index)
  have b': "map_of (type_index mgr_two) (type_value (signal_type sig_health))
              = Some ([] @ ''elmer:monitoring'' # [])"
    by (simp add: mgr_two_index sig_health_def create_def)
  have p: "\<forall>x\<in>set []. \<not> live mgr_two x" by simp
  have s: "map_of (sockets mgr_two) ''elmer:comprehension'' = Some ?co"
    by (simp add: mgr_two_sockets)
  have s': "map_of (sockets mgr_two) ''elmer:monitoring'' = Some ?mo"
    by (simp add: mgr_two_sockets)
  have t: "bool_m ?co (state ?co)" and t': "bool_m ?mo (state ?mo)" by simp_all
  have c: "is_connected (state ?co)" and c': "is_connected (state ?mo)" by simp_all
  have k: "process_m ?co (state ?co) sig_hello = (Inr ?r, ?s1)"
    by (simp add: comprehension_process_def init_state_def)
  have k': "process_m ?mo (state ?mo) sig_health = (Inr ?q, ?s1)"
    by (simp add: monitoring_process_def init_state_def sig_health_def create_def with_updates_def)
  have e: "\<exists>s. ?co = ComprehensionSocket\<lparr> state := s \<rparr> \<or> ?co = MonitoringSocket\<lparr> state := s \<rparr>"
    by blast
  have e': "\<exists>s. ?mo = ComprehensionSocket\<lparr> state := s \<rparr> \<or> ?mo = MonitoringSocket\<lparr> state := s \<rparr>"
    by blast
  note first = route_signal_first_connected [OF b p s t c k]
  note second = route_signal_first_connected [OF b' p s' t' c' k']
  have "fst (route_signal mgr_two sig_hello) = ?r"
    using first [THEN conjunct1] by simp
  moreover have "source_socket (fst (route_signal mgr_two sig_hello)) = socket_id ?co"
    using first [THEN conjunct2] e by (rule mp)
  moreover have "fst (route_signal mgr_two sig_health) = ?q"
    using second [THEN conjunct1] by simp
  moreover have "source_socket (fst (route_signal mgr_two sig_health)) = socket_id ?mo"
    using second [THEN conjunct2] e' by (rule mp)
  ultimately show ?thesis by (simp add: with_updates_def sig_health_def create_def)
qed

text \<open>
  Claim C1. The docstring of \<^verbatim>\<open>route_signal\<close> says that among several matching sockets the
  first connected one is used, and the claim says that a failure of that socket ends in
  pass-through with no second socket tried. The loop does otherwise: its \<^verbatim>\<open>except\<close> clause
  logs and neither breaks nor returns. With a raising socket registered before the
  comprehension socket and both connected, \<^verbatim>\<open>route_signal\<close> goes on to the comprehension
  socket, which processes the signal, and the signal returned is not the one given.
\<close>

theorem route_signal_retries_after_failure:
  "map_of (type_index mgr_flaky) (type_value (signal_type sig_hello))
     = Some [''test:flaky'', ''elmer:comprehension'']
   \<and> live mgr_flaky ''test:flaky''
   \<and> fst (process_m FlakySocket (init_state\<lparr> is_connected := True \<rparr>) sig_hello) = Inl (Raised ''boom'')
   \<and> fst (route_signal mgr_flaky sig_hello) \<noteq> sig_hello
   \<and> source_socket (fst (route_signal mgr_flaky sig_hello)) = ''elmer:comprehension''
   \<and> processed_by mgr_flaky ''elmer:comprehension'' = Some 0
   \<and> processed_by (snd (route_signal mgr_flaky sig_hello)) ''elmer:comprehension'' = Some 1"
proof -
  have src: "source_socket (fst (route_signal mgr_flaky sig_hello)) = ''elmer:comprehension''"
    by (simp add: route_flaky_result with_updates_def)
  have ne: "fst (route_signal mgr_flaky sig_hello) \<noteq> sig_hello"
  proof
    assume "fst (route_signal mgr_flaky sig_hello) = sig_hello"
    then have "source_socket (fst (route_signal mgr_flaky sig_hello)) = source_socket sig_hello"
      by simp
    then show False by (simp add: src)
  qed
  have idx: "map_of (type_index mgr_flaky) (type_value (signal_type sig_hello))
     = Some [''test:flaky'', ''elmer:comprehension'']"
    by (simp add: mgr_flaky_index)
  have lv: "live mgr_flaky ''test:flaky''"
    by (simp add: live_def mgr_flaky_sockets)
  have boom: "fst (process_m FlakySocket (init_state\<lparr> is_connected := True \<rparr>) sig_hello)
                = Inl (Raised ''boom'')"
    by simp
  have before: "processed_by mgr_flaky ''elmer:comprehension'' = Some 0"
    by (simp add: processed_by_def mgr_flaky_sockets init_state_def)
  show ?thesis using src ne idx lv boom before route_flaky_counts(2) by blast
qed

text \<open>
  What the loop does after the failure of the first socket that passes the routing test:
  it records the failure and the socket's state and scans the rest of the bucket.
\<close>

lemma route_loop_after_failure:
  assumes bucket: "map_of (type_index m) (type_value (signal_type sg)) = Some (pre @ sid # rest)"
    and pre: "\<forall>x\<in>set pre. \<not> live m x"
    and sock: "map_of (sockets m) sid = Some sock"
    and truthy: "bool_m sock (state sock)"
    and conn: "is_connected (state sock)"
    and fails: "process_m sock (state sock) sg = (Inl exc, s')"
  shows "route_signal m sg
           = route_loop rest
               (m\<lparr> sockets := AList.update sid (sock\<lparr> state := s' \<rparr>) (sockets m),
                   mgr_log := mgr_log m @ [LogProcessFailed sid (signal_id sg) exc] \<rparr>) sg
         \<and> ((\<forall>x\<in>set rest. \<not> live m x) \<longrightarrow>
               fst (route_signal m sg) = sg
               \<and> mgr_log (snd (route_signal m sg))
                   = mgr_log m @ [LogProcessFailed sid (signal_id sg) exc])
         \<and> (\<forall>pre2 sid2 rest2 sock2 r s2.
               rest = pre2 @ sid2 # rest2 \<and> (\<forall>x\<in>set pre2. \<not> live m x) \<and> sid2 \<noteq> sid
               \<and> map_of (sockets m) sid2 = Some sock2
               \<and> bool_m sock2 (state sock2) \<and> is_connected (state sock2)
               \<and> process_m sock2 (state sock2) sg = (Inr r, s2)
               \<longrightarrow> fst (route_signal m sg) = r)"
proof -
  let ?m' = "m\<lparr> sockets := AList.update sid (sock\<lparr> state := s' \<rparr>) (sockets m),
                 mgr_log := mgr_log m @ [LogProcessFailed sid (signal_id sg) exc] \<rparr>"
  have step: "route_signal m sg = route_loop rest ?m' sg"
    using bucket pre sock truthy conn fails by (simp add: route_signal_def route_loop_skip)
  have sid_live: "live m sid" using sock truthy conn by (simp add: live_def)
  have dead_keep: "\<And>xs. \<forall>x\<in>set xs. \<not> live m x \<Longrightarrow> \<forall>x\<in>set xs. \<not> live ?m' x"
  proof
    fix xs x assume d: "\<forall>x\<in>set xs. \<not> live m x" and x: "x \<in> set xs"
    then have "x \<noteq> sid" using sid_live by auto
    then show "\<not> live ?m' x" using d x by (simp add: live_update_other)
  qed
  have pass: "(\<forall>x\<in>set rest. \<not> live m x) \<longrightarrow>
               fst (route_signal m sg) = sg
               \<and> mgr_log (snd (route_signal m sg))
                   = mgr_log m @ [LogProcessFailed sid (signal_id sg) exc]"
    using step dead_keep [of rest] by (auto simp: route_loop_dead)
  have next_ok: "\<forall>pre2 sid2 rest2 sock2 r s2.
               rest = pre2 @ sid2 # rest2 \<and> (\<forall>x\<in>set pre2. \<not> live m x) \<and> sid2 \<noteq> sid
               \<and> map_of (sockets m) sid2 = Some sock2
               \<and> bool_m sock2 (state sock2) \<and> is_connected (state sock2)
               \<and> process_m sock2 (state sock2) sg = (Inr r, s2)
               \<longrightarrow> fst (route_signal m sg) = r"
  proof (intro allI impI, elim conjE)
    fix pre2 sid2 rest2 sock2 r s2
    assume r: "rest = pre2 @ sid2 # rest2" and d: "\<forall>x\<in>set pre2. \<not> live m x"
      and ne: "sid2 \<noteq> sid" and s2: "map_of (sockets m) sid2 = Some sock2"
      and t2: "bool_m sock2 (state sock2)" and c2: "is_connected (state sock2)"
      and p2: "process_m sock2 (state sock2) sg = (Inr r, s2)"
    have "route_loop rest ?m' sg = route_loop (sid2 # rest2) ?m' sg"
      using r dead_keep [OF d] by (simp add: route_loop_skip)
    moreover have "map_of (sockets ?m') sid2 = Some sock2"
      using s2 ne by (simp add: AList.update_conv')
    ultimately show "fst (route_signal m sg) = r"
      using step t2 c2 p2 by simp
  qed
  show ?thesis using step pass next_ok by blast
qed

section \<open>Properties of the encoder\<close>

lemma extract_loop_find:
  "extract_loop ks pl =
     (case find (\<lambda>k. case map_of pl k of None \<Rightarrow> False | Some v \<Rightarrow> is_str v) ks of
        None \<Rightarrow> None
      | Some k \<Rightarrow> (case map_of pl k of Some (PStr s) \<Rightarrow> Some s | _ \<Rightarrow> None))"
proof (induction ks)
  case Nil
  show ?case by simp
next
  case (Cons k ks)
  show ?case
  proof (cases "map_of pl k")
    case None
    with Cons show ?thesis by simp
  next
    case (Some v)
    with Cons show ?thesis by (cases v) simp_all
  qed
qed

lemma find_is_str:
  "find (\<lambda>k. case map_of pl k of None \<Rightarrow> False | Some v \<Rightarrow> is_str v) ks = Some k
   \<Longrightarrow> \<exists>s. map_of pl k = Some (PStr s)"
proof -
  assume "find (\<lambda>k. case map_of pl k of None \<Rightarrow> False | Some v \<Rightarrow> is_str v) ks = Some k"
  then have "case map_of pl k of None \<Rightarrow> False | Some v \<Rightarrow> is_str v"
    by (auto simp: find_Some_iff)
  then show ?thesis
    by (cases "map_of pl k"; simp) (metis is_str.elims(2))
qed

text \<open>
  Claim C9, as stated, fails at the words "taking the first present": with the payload
  \<^verbatim>\<open>{"text": 5, "content": "hi"}\<close> the first key present is \<^verbatim>\<open>text\<close> and the text
  extracted is the value of \<^verbatim>\<open>content\<close>; with \<^verbatim>\<open>{"text": 5}\<close> a key is present and the
  text extracted is the string form of the whole payload.
\<close>

theorem extract_text_first_present_counterexample:
  "first_present_key (payload sig_mixed) = Some ''text''
   \<and> extract_text str_stub sig_mixed = ''hi''
   \<and> map_of (payload sig_mixed) ''text'' = Some (PInt 5)
   \<and> first_present_key (payload sig_number) = Some ''text''
   \<and> extract_text str_stub sig_number = ''fallback''"
  by (simp add: first_present_key_def text_keys_def sig_mixed_def sig_number_def create_def
      extract_text_def str_stub_def)

text \<open>
  Claim C9, amended. The target id is the type value, a colon and the source socket.
  The text is the value of the first of the keys \<^verbatim>\<open>text\<close>, \<^verbatim>\<open>content\<close>, \<^verbatim>\<open>message\<close>,
  \<^verbatim>\<open>query\<close>, in that order, that is present in the payload with a string value; when no
  such key exists it is the string form of the whole payload.
\<close>

theorem encode_target_and_text:
  "target_id (encode embed_fn str_of sg) = type_value (signal_type sg) @ '':'' @ source_socket sg
   \<and> embedding (encode embed_fn str_of sg) = embed_fn (extract_text str_of sg)
   \<and> (\<forall>k. first_text_key (payload sg) = Some k \<longrightarrow>
          map_of (payload sg) k = Some (PStr (extract_text str_of sg)))
   \<and> (first_text_key (payload sg) = None \<longrightarrow> extract_text str_of sg = str_of (payload sg))"
proof -
  have a: "map_of (payload sg) k = Some (PStr (extract_text str_of sg))"
    if "first_text_key (payload sg) = Some k" for k
  proof -
    from that obtain s where s: "map_of (payload sg) k = Some (PStr s)"
      unfolding first_text_key_def by (blast dest: find_is_str)
    with that have "extract_loop text_keys (payload sg) = Some s"
      by (simp add: extract_loop_find first_text_key_def)
    then show ?thesis using s by (simp add: extract_text_def text_keys_def)
  qed
  have b: "extract_text str_of sg = str_of (payload sg)" if "first_text_key (payload sg) = None"
  proof -
    from that have "extract_loop text_keys (payload sg) = None"
      by (simp add: extract_loop_find first_text_key_def)
    then show ?thesis by (simp add: extract_text_def text_keys_def)
  qed
  show ?thesis using a b by (simp add: encode_def Let_def)
qed

theorem encode_target_and_text_witness:
  "target_id (encode embed_stub str_stub sig_mixed) = ''sensory:test:input''
   \<and> extract_text str_stub sig_mixed = ''hi''
   \<and> extract_text str_stub sig_number = ''fallback''"
proof -
  have k1: "first_text_key (payload sig_mixed) = Some ''content''"
    by (simp add: first_text_key_def text_keys_def sig_mixed_def create_def)
  have k2: "first_text_key (payload sig_number) = None"
    by (simp add: first_text_key_def text_keys_def sig_number_def create_def)
  have v: "map_of (payload sig_mixed) ''content'' = Some (PStr ''hi'')"
    by (simp add: sig_mixed_def create_def)
  from encode_target_and_text [of embed_stub str_stub sig_mixed] k1 v
  have "target_id (encode embed_stub str_stub sig_mixed)
          = type_value (signal_type sig_mixed) @ '':'' @ source_socket sig_mixed"
    and "extract_text str_stub sig_mixed = ''hi''"
    by auto
  moreover from encode_target_and_text [of embed_stub str_stub sig_number] k2
  have "extract_text str_stub sig_number = ''fallback''"
    by (simp add: sig_number_def create_def str_stub_def)
  ultimately show ?thesis by (simp add: sig_mixed_def create_def)
qed

section \<open>Properties of the engine\<close>

lemma start_new_engine:
  "started engine_started" "eng_process_count engine_started = 0"
  "ecosystem engine_started = None"
  "sockets (socket_manager engine_started) =
     [(''elmer:comprehension'', ComprehensionSocket\<lparr> state := init_state\<lparr> is_connected := True \<rparr> \<rparr>),
      (''elmer:monitoring'', MonitoringSocket\<lparr> state := init_state\<lparr> is_connected := True \<rparr> \<rparr>)]"
  "type_index (socket_manager engine_started)
     = [(''sensory'', [''elmer:comprehension'']), (''health'', [''elmer:monitoring''])]"
  by (simp_all add: engine_started_def start_def new_engine_def cfg0_def register_def
      new_manager_def connect_all_def Let_def simple_connect_def init_state_def)

lemma engine_dark_sockets:
  "sockets (socket_manager engine_dark) =
     [(''elmer:comprehension'', ComprehensionSocket\<lparr> state := init_state \<rparr>),
      (''elmer:monitoring'', MonitoringSocket\<lparr> state := init_state \<rparr>)]"
  by (simp add: engine_dark_def disconnect_all_def start_new_engine simple_disconnect_def
      init_state_def)

lemma engine_dark_report: "hr_status (eh_sockets (health engine_dark)) = ''offline''"
  by (simp add: health_def health_report_def engine_dark_sockets simple_health_check_def
      base_health_def init_state_def)

lemma process_id_after_update:
  "map_of (AList.update ''ecosystem'' v (AList.update ''process_id'' p d)) ''process_id'' = Some p"
  "map_of (AList.update ''process_id'' p d) ''process_id'' = Some p"
  by (simp_all add: AList.update_conv')

lemma process_text_started:
  assumes "started e"
  shows "process_id_of (fst (process_text em st uid now txt e)) = Some (PInt (eng_process_count e + 1))"
    and "eng_process_count (snd (process_text em st uid now txt e)) = eng_process_count e + 1"
    and "started (snd (process_text em st uid now txt e))"
  using assms
  by (simp_all add: process_text_def Let_def process_id_of_def process_id_after_update
      split: prod.splits)

text \<open>
  Claim C8. On an engine that is not started \<^verbatim>\<open>process_text\<close> raises the not-started error
  and leaves the engine as it is; a new engine is not started, and \<^verbatim>\<open>start\<close> on such an
  engine leaves it started exactly when it returns a report. On a started engine every
  call returns a record whose \<^verbatim>\<open>process_id\<close> is the engine's counter plus one, and adds
  one to the counter, so that the next call's \<^verbatim>\<open>process_id\<close> is greater by exactly one.
\<close>

theorem process_text_counter:
  "(\<not> started e \<longrightarrow> process_text em st uid now txt e = (Inl NotStarted, e))
   \<and> (started e \<longrightarrow>
        process_id_of (fst (process_text em st uid now txt e))
          = Some (PInt (eng_process_count e + 1))
        \<and> eng_process_count (snd (process_text em st uid now txt e)) = eng_process_count e + 1
        \<and> started (snd (process_text em st uid now txt e))
        \<and> process_id_of
            (fst (process_text em st uid2 now2 txt2 (snd (process_text em st uid now txt e))))
          = Some (PInt (eng_process_count e + 2)))
   \<and> \<not> started (new_engine cfg)
   \<and> (\<not> started e \<longrightarrow>
        started (snd (start eco_init h e)) = (\<exists>rep. fst (start eco_init h e) = Inr rep))"
proof -
  have a: "\<not> started e \<longrightarrow> process_text em st uid now txt e = (Inl NotStarted, e)"
    by (simp add: process_text_def)
  have b: "process_id_of
            (fst (process_text em st uid2 now2 txt2 (snd (process_text em st uid now txt e))))
          = Some (PInt (eng_process_count e + 2))" if "started e"
  proof -
    let ?e' = "snd (process_text em st uid now txt e)"
    have s': "started ?e'" using that by (rule process_text_started(3))
    have "eng_process_count ?e' = eng_process_count e + 1"
      using that by (rule process_text_started(2))
    with process_text_started(1) [OF s', of em st uid2 now2 txt2] show ?thesis by simp
  qed
  have c: "\<not> started (new_engine cfg)" by (simp add: new_engine_def)
  have d: "\<not> started e \<longrightarrow>
        started (snd (start eco_init h e)) = (\<exists>rep. fst (start eco_init h e) = Inr rep)"
    by (auto simp: start_def Let_def split: prod.splits option.splits)
  show ?thesis using a b c d process_text_started by blast
qed

theorem process_text_counter_witness:
  "fst (process_text embed_stub str_stub ''u1'' 0 ''hi'' (new_engine cfg0)) = Inl NotStarted
   \<and> process_id_of (fst (process_text embed_stub str_stub ''u1'' 0 ''hi'' engine_started))
       = Some (PInt 1)
   \<and> process_id_of (fst (process_text embed_stub str_stub ''u2'' 1 ''hi''
        (snd (process_text embed_stub str_stub ''u1'' 0 ''hi'' engine_started))))
       = Some (PInt 2)"
proof -
  have n: "\<not> started (new_engine cfg0)" by (simp add: new_engine_def)
  note t0 = process_text_counter [of "new_engine cfg0" embed_stub str_stub "''u1''" 0 "''hi''"]
  note t1 = process_text_counter [of engine_started embed_stub str_stub "''u1''" 0 "''hi''"
      "''u2''" 1 "''hi''"]
  from t0 n have "fst (process_text embed_stub str_stub ''u1'' 0 ''hi'' (new_engine cfg0))
      = Inl NotStarted" by simp
  moreover from t1 start_new_engine(1,2)
  have "process_id_of (fst (process_text embed_stub str_stub ''u1'' 0 ''hi'' engine_started))
       = Some (PInt 1)"
    and "process_id_of (fst (process_text embed_stub str_stub ''u2'' 1 ''hi''
        (snd (process_text embed_stub str_stub ''u1'' 0 ''hi'' engine_started))))
       = Some (PInt 2)"
    by simp_all
  ultimately show ?thesis by simp
qed

text \<open>
  Claim C10. The status of \<^verbatim>\<open>health\<close> is \<^verbatim>\<open>healthy\<close> when the engine is started and
  \<^verbatim>\<open>offline\<close> when it is not, whatever the sockets report; it is never \<^verbatim>\<open>degraded\<close>.
\<close>

theorem health_status_from_started:
  "(started e \<longrightarrow> eh_status (health e) = ''healthy'')
   \<and> (\<not> started e \<longrightarrow> eh_status (health e) = ''offline'')
   \<and> eh_status (health e) \<noteq> ''degraded''"
  by (simp add: health_def)


theorem health_status_from_started_witness:
  "eh_status (health engine_dark) = ''healthy''
   \<and> hr_status (eh_sockets (health engine_dark)) = ''offline''
   \<and> eh_status (health (new_engine cfg0)) = ''offline''"
proof -
  have s: "started engine_dark" by (simp add: engine_dark_def start_new_engine)
  have n: "\<not> started (new_engine cfg0)" by (simp add: new_engine_def)
  from health_status_from_started [of engine_dark] s
  have "eh_status (health engine_dark) = ''healthy''" by blast
  moreover from health_status_from_started [of "new_engine cfg0"] n
  have "eh_status (health (new_engine cfg0)) = ''offline''" by blast
  ultimately show ?thesis using engine_dark_report by simp
qed

section \<open>Properties of the health report\<close>

lemma collect_health_statuses:
  "snd (collect_health items sh sts) = sts @ map (\<lambda>(sid, sock). reported_status sock) items"
  by (induction items arbitrary: sh sts)
     (auto simp: reported_status_def split: sum.splits option.splits)

lemma health_report_status:
  "hr_status (health_report m) =
     (let statuses = map (\<lambda>(sid, sock). reported_status sock) (sockets m)
      in if statuses = [] then ''no_sockets''
         else if list_all (\<lambda>s. s = PStr ''healthy'') statuses then ''healthy''
         else if list_all (\<lambda>s. s = PStr ''offline'' \<or> s = PStr ''error'') statuses
         then ''offline'' else ''degraded'')"
proof -
  obtain sh sts where c: "collect_health (sockets m) [] [] = (sh, sts)"
    by (cases "collect_health (sockets m) [] []")
  with collect_health_statuses [of "sockets m" "[]" "[]"]
  have "sts = map (\<lambda>(sid, sock). reported_status sock) (sockets m)" by simp
  with c show ?thesis by (simp add: health_report_def Let_def)
qed

lemma reported_status_simple [simp]:
  "reported_status (ComprehensionSocket\<lparr> state := s \<rparr>)
     = PStr (if is_connected s then ''healthy'' else ''offline'')"
  "reported_status (MonitoringSocket\<lparr> state := s \<rparr>)
     = PStr (if is_connected s then ''healthy'' else ''offline'')"
  "reported_status ComprehensionSocket = PStr ''offline''"
  "reported_status MonitoringSocket = PStr ''offline''"
  by (simp_all add: reported_status_def simple_health_check_def base_health_def init_state_def)

lemma mgr_half_sockets:
  "sockets mgr_half =
     [(''elmer:comprehension'', ComprehensionSocket\<lparr> state := init_state\<lparr> is_connected := True \<rparr> \<rparr>),
      (''elmer:monitoring'', MonitoringSocket)]"
  by (simp add: mgr_half_def mgr_one_def connect_all_def register_def new_manager_def Let_def
      simple_connect_def init_state_def)

lemma mgr_cold_sockets:
  "sockets mgr_cold =
     [(''elmer:comprehension'', ComprehensionSocket), (''elmer:monitoring'', MonitoringSocket)]"
  by (simp add: mgr_cold_def mgr_one_def register_def new_manager_def Let_def)

text \<open>
  Claim C6. The overall status of \<^verbatim>\<open>health_report\<close> is \<^verbatim>\<open>no_sockets\<close> for an empty
  registry. For a registry that is not empty it is \<^verbatim>\<open>healthy\<close> exactly when every socket's
  recorded status is \<^verbatim>\<open>healthy\<close>, \<^verbatim>\<open>offline\<close> exactly when every recorded status is
  \<^verbatim>\<open>offline\<close> or \<^verbatim>\<open>error\<close>, \<^verbatim>\<open>degraded\<close> exactly when neither holds, and never
  \<^verbatim>\<open>no_sockets\<close>; so an empty registry is never reported \<^verbatim>\<open>healthy\<close>.
\<close>

theorem health_report_overall:
  "(sockets m = [] \<longrightarrow> hr_status (health_report m) = ''no_sockets'')
   \<and> (sockets m \<noteq> [] \<longrightarrow>
        (hr_status (health_report m) = ''healthy''
           \<longleftrightarrow> (\<forall>(sid, sock) \<in> set (sockets m). reported_status sock = PStr ''healthy''))
        \<and> (hr_status (health_report m) = ''offline''
           \<longleftrightarrow> (\<forall>(sid, sock) \<in> set (sockets m).
                 reported_status sock = PStr ''offline'' \<or> reported_status sock = PStr ''error''))
        \<and> (hr_status (health_report m) = ''degraded''
           \<longleftrightarrow> \<not> (\<forall>(sid, sock) \<in> set (sockets m). reported_status sock = PStr ''healthy'')
               \<and> \<not> (\<forall>(sid, sock) \<in> set (sockets m).
                 reported_status sock = PStr ''offline'' \<or> reported_status sock = PStr ''error''))
        \<and> hr_status (health_report m) \<noteq> ''no_sockets'')"
proof (cases "sockets m")
  case Nil
  then show ?thesis by (simp add: health_report_status)
next
  case (Cons p ps)
  obtain sid sock where p: "p = (sid, sock)" by (cases p)
  let ?H = "\<forall>(sid, sock) \<in> set (sockets m). reported_status sock = PStr ''healthy''"
  let ?O = "\<forall>(sid, sock) \<in> set (sockets m).
                 reported_status sock = PStr ''offline'' \<or> reported_status sock = PStr ''error''"
  have h: "list_all (\<lambda>s. s = PStr ''healthy'') (map (\<lambda>(sid, sock). reported_status sock) (sockets m)) = ?H"
    by (auto simp: list_all_iff)
  have o: "list_all (\<lambda>s. s = PStr ''offline'' \<or> s = PStr ''error'')
             (map (\<lambda>(sid, sock). reported_status sock) (sockets m)) = ?O"
    by (auto simp: list_all_iff)
  have excl: "\<not> (?H \<and> ?O)" using Cons p by auto
  have st: "hr_status (health_report m) =
      (if ?H then ''healthy'' else if ?O then ''offline'' else ''degraded'')"
    using Cons unfolding health_report_status Let_def h o by simp
  show ?thesis using Cons excl st by auto
qed


theorem health_report_overall_witness:
  "hr_status (health_report (new_manager 16)) = ''no_sockets''
   \<and> hr_status (health_report mgr_two) = ''healthy''
   \<and> hr_status (health_report mgr_cold) = ''offline''
   \<and> hr_status (health_report mgr_half) = ''degraded''"
proof -
  have e: "sockets (new_manager 16) = []" by (simp add: new_manager_def)
  have a: "sockets mgr_two \<noteq> []
      \<and> (\<forall>(sid, sock) \<in> set (sockets mgr_two). reported_status sock = PStr ''healthy'')"
    by (simp add: mgr_two_sockets init_state_def)
  have b: "sockets mgr_cold \<noteq> []
      \<and> (\<forall>(sid, sock) \<in> set (sockets mgr_cold).
            reported_status sock = PStr ''offline'' \<or> reported_status sock = PStr ''error'')"
    by (simp add: mgr_cold_sockets)
  have c: "sockets mgr_half \<noteq> []
      \<and> \<not> (\<forall>(sid, sock) \<in> set (sockets mgr_half). reported_status sock = PStr ''healthy'')
      \<and> \<not> (\<forall>(sid, sock) \<in> set (sockets mgr_half).
            reported_status sock = PStr ''offline'' \<or> reported_status sock = PStr ''error'')"
    by (simp add: mgr_half_sockets init_state_def)
  from health_report_overall [of "new_manager 16"] e
  have "hr_status (health_report (new_manager 16)) = ''no_sockets''" by blast
  moreover from health_report_overall [of mgr_two] a
  have "hr_status (health_report mgr_two) = ''healthy''" by blast
  moreover from health_report_overall [of mgr_cold] b
  have "hr_status (health_report mgr_cold) = ''offline''" by blast
  moreover from health_report_overall [of mgr_half] c
  have "hr_status (health_report mgr_half) = ''degraded''" by blast
  ultimately show ?thesis by simp
qed

section \<open>Properties of the bulk connect\<close>

lemma update_in_place:
  "k \<notin> fst ` set xs \<Longrightarrow> AList.update k v' (xs @ (k, v) # ys) = xs @ (k, v') # ys"
  by (induction xs) auto

lemma update_append_fresh:
  "k \<notin> fst ` set acc \<Longrightarrow> AList.update k v acc = acc @ [(k, v)]"
  by (induction acc) auto

lemma connect_loop_results:
  "fst (connect_loop items m res)
     = fold (\<lambda>(sid, sock). AList.update sid (connect_ok sock)) items res"
  by (induction items arbitrary: m res)
     (auto simp: connect_ok_def split: prod.splits option.splits)

lemma connect_loop_sockets:
  "sockets (snd (connect_loop items m res))
     = fold (\<lambda>(sid, sock). AList.update sid (after_connect sock)) items (sockets m)"
  by (induction items arbitrary: m res)
     (auto simp: after_connect_def split: prod.splits option.splits)

lemma connect_loop_keeps:
  "hardware (snd (connect_loop items m res)) = hardware m"
  "type_index (snd (connect_loop items m res)) = type_index m"
  "filter is_hw_log (mgr_log (snd (connect_loop items m res))) = filter is_hw_log (mgr_log m)"
  by (induction items arbitrary: m res; auto split: prod.splits option.splits)+

lemma fold_update_fresh:
  "distinct (map fst items) \<Longrightarrow> fst ` set items \<inter> fst ` set acc = {} \<Longrightarrow>
   fold (\<lambda>(k, v). AList.update k (f v)) items acc = acc @ map (\<lambda>(k, v). (k, f v)) items"
proof (induction items arbitrary: acc)
  case Nil
  show ?case by simp
next
  case (Cons p items)
  obtain k v where p: "p = (k, v)" by (cases p)
  from Cons.prems p have fresh: "k \<notin> fst ` set acc" by auto
  have d: "distinct (map fst items)" using Cons.prems by simp
  have "fst ` set items \<inter> fst ` set (acc @ [(k, f v)]) = {}"
    using Cons.prems p by auto
  from Cons.IH [OF d this] show ?case
    using p fresh by (simp add: update_append_fresh)
qed

lemma fold_update_self:
  "distinct (map fst items) \<Longrightarrow> fst ` set items \<inter> fst ` set pre = {} \<Longrightarrow>
   fold (\<lambda>(k, v). AList.update k (f v)) items (pre @ items)
     = pre @ map (\<lambda>(k, v). (k, f v)) items"
proof (induction items arbitrary: pre)
  case Nil
  show ?case by simp
next
  case (Cons p items)
  obtain k v where p: "p = (k, v)" by (cases p)
  from Cons.prems p have fresh: "k \<notin> fst ` set pre" by auto
  have d: "distinct (map fst items)" using Cons.prems by simp
  have "fst ` set items \<inter> fst ` set (pre @ [(k, f v)]) = {}"
    using Cons.prems p by auto
  from Cons.IH [OF d this] show ?case
    using p fresh by (simp add: update_in_place)
qed


lemma connect_all_unfold:
  "connect_all h m =
     (let m1 = (if hardware m = None
                then m\<lparr> hardware := Some (detect_hardware h),
                        mgr_log := mgr_log m @ [LogHardware (detect_hardware h)] \<rparr>
                else m)
      in (fst (connect_loop (sockets m) m1 []),
          (snd (connect_loop (sockets m) m1 []))\<lparr> mgr_started := True \<rparr>))"
  by (simp add: connect_all_def Let_def case_prod_beta)

lemma connect_all_hardware:
  "hardware (snd (connect_all h m))
     = Some (case hardware m of None \<Rightarrow> detect_hardware h | Some hw \<Rightarrow> hw)"
  by (cases "hardware m") (simp_all add: connect_all_unfold connect_loop_keeps Let_def)

lemma connect_all_probe_log:
  "filter is_hw_log (mgr_log (snd (connect_all h m)))
     = filter is_hw_log (mgr_log m)
       @ (if hardware m = None then [LogHardware (detect_hardware h)] else [])"
  by (simp add: connect_all_unfold connect_loop_keeps Let_def)

lemma connect_all_results:
  assumes "distinct (map fst (sockets m))"
  shows "fst (connect_all h m) = map (\<lambda>(sid, sock). (sid, connect_ok sock)) (sockets m)"
proof -
  have "fold (\<lambda>(sid, sock). AList.update sid (connect_ok sock)) (sockets m) []
          = [] @ map (\<lambda>(sid, sock). (sid, connect_ok sock)) (sockets m)"
    using assms by (intro fold_update_fresh) simp_all
  then show ?thesis
    by (simp add: connect_all_unfold connect_loop_results Let_def)
qed

lemma connect_all_sockets:
  assumes "distinct (map fst (sockets m))"
  shows "sockets (snd (connect_all h m))
           = map (\<lambda>(sid, sock). (sid, after_connect sock)) (sockets m)"
proof -
  have "fold (\<lambda>(sid, sock). AList.update sid (after_connect sock)) (sockets m) ([] @ sockets m)
          = [] @ map (\<lambda>(sid, sock). (sid, after_connect sock)) (sockets m)"
    using assms by (intro fold_update_self) simp_all
  then show ?thesis
    by (simp add: connect_all_unfold connect_loop_sockets Let_def)
qed

lemma stub_fields [simp]:
  "socket_id StubbornSocket = ''test:stubborn''"
  "socket_type StubbornSocket = ''memory''"
  "hardware_affinity StubbornSocket = ''gpu''"
  "state StubbornSocket = init_state"
  "connect_m StubbornSocket = (\<lambda>s. (Some (Raised ''no device''), s))"
  by (simp_all add: StubbornSocket_def)

lemma mgr_three_sockets:
  "sockets mgr_three =
     [(''elmer:comprehension'', ComprehensionSocket), (''test:stubborn'', StubbornSocket),
      (''elmer:monitoring'', MonitoringSocket)]"
  by (simp add: mgr_three_def register_def new_manager_def Let_def)

lemma mgr_three_hardware: "hardware mgr_three = None" "filter is_hw_log (mgr_log mgr_three) = []"
  by (simp_all add: mgr_three_def register_def new_manager_def Let_def)

text \<open>
  Claim C7. In a registry with one entry per id, \<^verbatim>\<open>connect_all\<close> calls \<^verbatim>\<open>connect\<close> on every
  registered socket, each in the state it had before the call, whatever the other
  sockets did, and returns one outcome per socket in registry order: true when the
  socket's \<^verbatim>\<open>connect\<close> returned, false when it raised. The hardware detection runs once
  when no result is cached, as in a new manager, and not at all otherwise; a second
  \<^verbatim>\<open>connect_all\<close>, on whatever host, keeps the cached result and does not detect again.
\<close>

theorem connect_all_outcomes:
  assumes "distinct (map fst (sockets m))"
  shows "fst (connect_all h m) = map (\<lambda>(sid, sock). (sid, connect_ok sock)) (sockets m)
    \<and> sockets (snd (connect_all h m))
        = map (\<lambda>(sid, sock). (sid, after_connect sock)) (sockets m)
    \<and> hardware (snd (connect_all h m))
        = Some (case hardware m of None \<Rightarrow> detect_hardware h | Some hw \<Rightarrow> hw)
    \<and> filter is_hw_log (mgr_log (snd (connect_all h m)))
        = filter is_hw_log (mgr_log m)
          @ (if hardware m = None then [LogHardware (detect_hardware h)] else [])
    \<and> hardware (snd (connect_all h2 (snd (connect_all h m)))) = hardware (snd (connect_all h m))
    \<and> filter is_hw_log (mgr_log (snd (connect_all h2 (snd (connect_all h m)))))
        = filter is_hw_log (mgr_log (snd (connect_all h m)))
    \<and> hardware (new_manager mx) = None"
proof -
  let ?m1 = "snd (connect_all h m)"
  have hw1: "hardware ?m1 \<noteq> None" by (simp add: connect_all_hardware)
  then have again: "hardware (snd (connect_all h2 ?m1)) = hardware ?m1"
    by (auto simp: connect_all_hardware [of h2 ?m1])
  have log2: "filter is_hw_log (mgr_log (snd (connect_all h2 ?m1))) = filter is_hw_log (mgr_log ?m1)"
    using hw1 by (simp add: connect_all_probe_log [of h2 ?m1])
  show ?thesis
    using connect_all_results [OF assms] connect_all_sockets [OF assms] again log2
    by (simp add: connect_all_hardware connect_all_probe_log new_manager_def)
qed

theorem connect_all_outcomes_witness:
  "fst (connect_all host0 mgr_three)
     = [(''elmer:comprehension'', True), (''test:stubborn'', False), (''elmer:monitoring'', True)]
   \<and> map (\<lambda>(sid, sock). (sid, is_connected (state sock)))
        (sockets (snd (connect_all host0 mgr_three)))
     = [(''elmer:comprehension'', True), (''test:stubborn'', False), (''elmer:monitoring'', True)]
   \<and> hardware (snd (connect_all host_rocm (snd (connect_all host0 mgr_three))))
     = Some (detect_hardware host0)
   \<and> filter is_hw_log (mgr_log (snd (connect_all host_rocm (snd (connect_all host0 mgr_three)))))
     = [LogHardware (detect_hardware host0)]
   \<and> detect_hardware host_rocm \<noteq> detect_hardware host0"
proof -
  have d: "distinct (map fst (sockets mgr_three))" by (simp add: mgr_three_sockets)
  note t = connect_all_outcomes [OF d, of host0 host_rocm 16]
  have ok: "map (\<lambda>(sid, sock). (sid, connect_ok sock)) (sockets mgr_three)
     = [(''elmer:comprehension'', True), (''test:stubborn'', False), (''elmer:monitoring'', True)]"
    by (simp add: mgr_three_sockets connect_ok_def simple_connect_def init_state_def)
  have st: "map (\<lambda>(sid, sock). (sid, is_connected (state sock)))
         (map (\<lambda>(sid, sock). (sid, after_connect sock)) (sockets mgr_three))
     = [(''elmer:comprehension'', True), (''test:stubborn'', False), (''elmer:monitoring'', True)]"
    by (simp add: mgr_three_sockets after_connect_def simple_connect_def init_state_def)
  have ne: "detect_hardware host_rocm \<noteq> detect_hardware host0"
    by (simp add: detect_hardware_def host_rocm_def host0_def Let_def)
  from t ok st ne show ?thesis by (simp add: mgr_three_hardware)
qed

section \<open>Consistency of the registry and the type index\<close>

lemma register_failure_keeps: "fst (register sock m) \<noteq> None \<Longrightarrow> snd (register sock m) = m"
  by (auto simp: register_def Let_def split: if_splits)

lemma register_success_maps:
  assumes "fst (register sock m) = None"
  shows "map_of (sockets (snd (register sock m))) = (map_of (sockets m))(socket_id sock \<mapsto> sock)"
    and "bucket_of (snd (register sock m))
           = (bucket_of m)(socket_type sock := bucket_of m (socket_type sock) @ [socket_id sock])"
    and "map_of (sockets m) (socket_id sock) = None"
  using assms
  by (auto simp: register_def Let_def AList.update_conv' bucket_of_def fun_eq_iff map_add_def
      split: if_splits option.splits)

lemma count_list_absent: "x \<notin> set xs \<Longrightarrow> count_list xs x = 0"
  by (induction xs) auto

lemma register_consistent:
  assumes c: "consistent m"
  shows "consistent (snd (register sock m))"
proof (cases "fst (register sock m)")
  case (Some err)
  then show ?thesis using c by (simp add: register_failure_keeps)
next
  case None
  note maps = register_success_maps [OF None]
  let ?sid = "socket_id sock" and ?ty = "socket_type sock"
  have fresh: "?sid \<notin> set (bucket_of m t)" for t
    using c maps(3) unfolding consistent_def by blast
  show ?thesis
    unfolding consistent_def maps(1,2)
  proof (intro conjI allI impI)
    fix t sid
    assume "sid \<in> set (((bucket_of m)(?ty := bucket_of m ?ty @ [?sid])) t)"
    then have "sid = ?sid \<or> sid \<in> set (bucket_of m t)" by (auto split: if_splits)
    then show "((map_of (sockets m))(?sid \<mapsto> sock)) sid \<noteq> None"
      using c unfolding consistent_def by auto
  next
    fix sid s
    assume reg: "((map_of (sockets m))(?sid \<mapsto> sock)) sid = Some s"
    show "count_list (((bucket_of m)(?ty := bucket_of m ?ty @ [?sid])) (socket_type s)) sid = 1"
    proof (cases "sid = ?sid")
      case True
      with reg have "s = sock" by simp
      with True fresh [of ?ty] show ?thesis by (simp add: count_list_absent)
    next
      case False
      with reg have old: "map_of (sockets m) sid = Some s" by simp
      with c have "count_list (bucket_of m (socket_type s)) sid = 1"
        unfolding consistent_def by blast
      with False show ?thesis by auto
    qed
  next
    fix sid s t
    assume reg: "((map_of (sockets m))(?sid \<mapsto> sock)) sid = Some s"
      and t: "t \<noteq> socket_type s"
    show "sid \<notin> set (((bucket_of m)(?ty := bucket_of m ?ty @ [?sid])) t)"
    proof (cases "sid = ?sid")
      case True
      with reg have "s = sock" by simp
      with True t fresh [of t] show ?thesis by simp
    next
      case False
      with reg have old: "map_of (sockets m) sid = Some s" by simp
      with c t have "sid \<notin> set (bucket_of m t)"
        unfolding consistent_def by blast
      with False show ?thesis by auto
    qed
  qed
qed

lemma unregister_absent: "map_of (sockets m) sid = None \<Longrightarrow> unregister sid m = m"
  by (simp add: unregister_def)

lemma unregister_maps:
  assumes "map_of (sockets m) sid = Some sock"
  shows "map_of (sockets (unregister sid m)) = (map_of (sockets m))(sid := None)"
    and "bucket_of (unregister sid m)
           = (bucket_of m)(socket_type sock := filter (\<lambda>x. x \<noteq> sid) (bucket_of m (socket_type sock)))"
  using assms
  by (auto simp: unregister_def Let_def AList.update_conv' AList.delete_conv' bucket_of_def
      fun_eq_iff split: option.splits)

lemma count_list_filter_other:
  "y \<noteq> x \<Longrightarrow> count_list (filter (\<lambda>z. z \<noteq> x) xs) y = count_list xs y"
  by (induction xs) auto

lemma unregister_consistent:
  assumes c: "consistent m"
  shows "consistent (unregister sid m)"
proof (cases "map_of (sockets m) sid")
  case None
  then show ?thesis using c by (simp add: unregister_absent)
next
  case (Some sock)
  note maps = unregister_maps [OF Some]
  let ?ty = "socket_type sock"
  have elsewhere: "sid \<notin> set (bucket_of m t)" if "t \<noteq> ?ty" for t
    using c Some that unfolding consistent_def by blast
  show ?thesis
    unfolding consistent_def maps
  proof (intro conjI allI impI)
    fix t x
    assume "x \<in> set (((bucket_of m)(?ty := filter (\<lambda>z. z \<noteq> sid) (bucket_of m ?ty))) t)"
    then have "x \<noteq> sid \<and> x \<in> set (bucket_of m t)"
      using elsewhere [of t] by (auto split: if_splits)
    then show "((map_of (sockets m))(sid := None)) x \<noteq> None"
      using c unfolding consistent_def by auto
  next
    fix x s
    assume reg: "((map_of (sockets m))(sid := None)) x = Some s"
    then have ne: "x \<noteq> sid" and old: "map_of (sockets m) x = Some s"
      by (auto split: if_splits)
    from c old have "count_list (bucket_of m (socket_type s)) x = 1"
      unfolding consistent_def by blast
    with ne show "count_list
        (((bucket_of m)(?ty := filter (\<lambda>z. z \<noteq> sid) (bucket_of m ?ty))) (socket_type s)) x = 1"
      by (auto simp: count_list_filter_other)
  next
    fix x s t
    assume reg: "((map_of (sockets m))(sid := None)) x = Some s" and t: "t \<noteq> socket_type s"
    then have old: "map_of (sockets m) x = Some s" by (auto split: if_splits)
    with c t have "x \<notin> set (bucket_of m t)" unfolding consistent_def by blast
    then show "x \<notin> set (((bucket_of m)(?ty := filter (\<lambda>z. z \<noteq> sid) (bucket_of m ?ty))) t)"
      by auto
  qed
qed

lemma new_manager_consistent: "consistent (new_manager mx)"
  by (simp add: consistent_def new_manager_def bucket_of_def)

lemma consistent_cong:
  assumes "consistent m" and "bucket_of m' = bucket_of m" and "types_of m' = types_of m"
  shows "consistent m'"
proof -
  have dom: "map_of (sockets m') sid \<noteq> None \<longleftrightarrow> map_of (sockets m) sid \<noteq> None" for sid
  proof -
    have "types_of m' sid = types_of m sid" by (simp add: assms(3))
    then show ?thesis
      by (cases "map_of (sockets m') sid"; cases "map_of (sockets m) sid")
         (simp_all add: types_of_def)
  qed
  have ty: "\<exists>s0. map_of (sockets m) sid = Some s0 \<and> socket_type s0 = socket_type s"
    if "map_of (sockets m') sid = Some s" for sid s
  proof -
    from that have "types_of m' sid = Some (socket_type s)" by (simp add: types_of_def)
    then have "types_of m sid = Some (socket_type s)" by (simp add: assms(3))
    then show ?thesis by (auto simp: types_of_def)
  qed
  show ?thesis
    unfolding consistent_def assms(2)
  proof (intro conjI allI impI)
    fix t sid assume "sid \<in> set (bucket_of m t)"
    with assms(1) have "map_of (sockets m) sid \<noteq> None" unfolding consistent_def by blast
    then show "map_of (sockets m') sid \<noteq> None" using dom [of sid] by blast
  next
    fix sid s assume "map_of (sockets m') sid = Some s"
    from ty [OF this] obtain s0 where "map_of (sockets m) sid = Some s0"
      and "socket_type s0 = socket_type s" by blast
    with assms(1) show "count_list (bucket_of m (socket_type s)) sid = 1"
      unfolding consistent_def by metis
  next
    fix sid s t assume "map_of (sockets m') sid = Some s" and t: "t \<noteq> socket_type s"
    from ty [OF this(1)] obtain s0 where "map_of (sockets m) sid = Some s0"
      and "socket_type s0 = socket_type s" by blast
    with assms(1) t show "sid \<notin> set (bucket_of m t)"
      unfolding consistent_def by metis
  qed
qed

lemma types_of_started [simp]: "types_of (m\<lparr> mgr_started := b \<rparr>) = types_of m"
  by (simp add: types_of_def fun_eq_iff)

lemma types_of_restate:
  "types_of m sid = Some (socket_type sock) \<Longrightarrow>
   types_of (m\<lparr> sockets := AList.update sid (sock\<lparr> state := s' \<rparr>) (sockets m), mgr_log := lg \<rparr>)
     = types_of m"
  "types_of m sid = Some (socket_type sock) \<Longrightarrow>
   types_of (m\<lparr> sockets := AList.update sid (sock\<lparr> state := s' \<rparr>) (sockets m) \<rparr>) = types_of m"
  by (auto simp: types_of_def fun_eq_iff AList.update_conv')

lemma keys_restate:
  "types_of m sid = Some ty \<Longrightarrow> map fst (AList.update sid v (sockets m)) = map fst (sockets m)"
  by (auto simp: types_of_def AList.update_keys map_of_eq_None_iff [symmetric])

lemma connect_loop_shape:
  assumes "\<forall>(sid, sock) \<in> set items. types_of m sid = Some (socket_type sock)"
  shows "types_of (snd (connect_loop items m res)) = types_of m
    \<and> map fst (sockets (snd (connect_loop items m res))) = map fst (sockets m)
    \<and> type_index (snd (connect_loop items m res)) = type_index m"
  using assms
proof (induction items arbitrary: m res)
  case Nil
  show ?case by simp
next
  case (Cons p items)
  obtain sid sock where p: "p = (sid, sock)" by (cases p)
  obtain r s' where c: "connect_m sock (state sock) = (r, s')" by (cases "connect_m sock (state sock)")
  let ?lg = "mgr_log m @ [case r of None \<Rightarrow> LogConnected sid | Some exc \<Rightarrow> LogConnectFailed sid exc]"
  let ?m' = "m\<lparr> sockets := AList.update sid (sock\<lparr> state := s' \<rparr>) (sockets m), mgr_log := ?lg \<rparr>"
  have here: "types_of m sid = Some (socket_type sock)" using Cons.prems p by simp
  have ty: "types_of ?m' = types_of m" using here by (rule types_of_restate(1))
  have ks: "map fst (sockets ?m') = map fst (sockets m)" using here by (simp add: keys_restate)
  have rest: "\<forall>(sid, sock) \<in> set items. types_of ?m' sid = Some (socket_type sock)"
    using Cons.prems unfolding ty by simp
  have step: "connect_loop (p # items) m res
      = connect_loop items ?m' (AList.update sid (r = None) res)"
    using p c by (cases r) simp_all
  from Cons.IH [OF rest, of "AList.update sid (r = None) res"] ty ks show ?case
    unfolding step by simp
qed

lemma disconnect_loop_shape:
  assumes "\<forall>(sid, sock) \<in> set items. types_of m sid = Some (socket_type sock)"
  shows "types_of (disconnect_loop items m) = types_of m
    \<and> map fst (sockets (disconnect_loop items m)) = map fst (sockets m)
    \<and> type_index (disconnect_loop items m) = type_index m"
  using assms
proof (induction items arbitrary: m)
  case Nil
  show ?case by simp
next
  case (Cons p items)
  obtain sid sock where p: "p = (sid, sock)" by (cases p)
  show ?case
  proof (cases "is_connected (state sock)")
    case False
    with Cons p show ?thesis by simp
  next
    case True
    obtain r s' where c: "disconnect_m sock (state sock) = (r, s')"
      by (cases "disconnect_m sock (state sock)")
    let ?lg = "mgr_log m @ [case r of None \<Rightarrow> LogDisconnected sid
                             | Some exc \<Rightarrow> LogDisconnectError sid exc]"
    let ?m' = "m\<lparr> sockets := AList.update sid (sock\<lparr> state := s' \<rparr>) (sockets m), mgr_log := ?lg \<rparr>"
    have here: "types_of m sid = Some (socket_type sock)" using Cons.prems p by simp
    have ty: "types_of ?m' = types_of m" using here by (rule types_of_restate(1))
    have ks: "map fst (sockets ?m') = map fst (sockets m)" using here by (simp add: keys_restate)
    have rest: "\<forall>(sid, sock) \<in> set items. types_of ?m' sid = Some (socket_type sock)"
      using Cons.prems unfolding ty by simp
    have step: "disconnect_loop (p # items) m = disconnect_loop items ?m'"
      using p c True by (cases r) simp_all
    from Cons.IH [OF rest] ty ks show ?thesis unfolding step by simp
  qed
qed

lemma route_loop_shape:
  "types_of (snd (route_loop sids m sg)) = types_of m
    \<and> map fst (sockets (snd (route_loop sids m sg))) = map fst (sockets m)
    \<and> type_index (snd (route_loop sids m sg)) = type_index m"
proof (induction sids arbitrary: m)
  case Nil
  show ?case by simp
next
  case (Cons sid sids)
  show ?case
  proof (cases "map_of (sockets m) sid")
    case None
    with Cons show ?thesis by simp
  next
    case (Some sock)
    then have here: "types_of m sid = Some (socket_type sock)" by (simp add: types_of_def)
    show ?thesis
    proof (cases "bool_m sock (state sock) \<and> is_connected (state sock)")
      case False
      with Some Cons show ?thesis by auto
    next
      case True
      obtain r s' where c: "process_m sock (state sock) sg = (r, s')"
        by (cases "process_m sock (state sock) sg")
      show ?thesis
      proof (cases r)
        case (Inr result)
        with Some True c here show ?thesis
          by (simp add: types_of_restate(2) keys_restate)
      next
        case (Inl exc)
        let ?m' = "m\<lparr> sockets := AList.update sid (sock\<lparr> state := s' \<rparr>) (sockets m),
                       mgr_log := mgr_log m @ [LogProcessFailed sid (signal_id sg) exc] \<rparr>"
        have ty: "types_of ?m' = types_of m" using here by (rule types_of_restate(1))
        have ks: "map fst (sockets ?m') = map fst (sockets m)"
          using here by (simp add: keys_restate)
        have step: "route_loop (sid # sids) m sg = route_loop sids ?m' sg"
          using Some True c Inl by simp
        from Cons [of ?m'] ty ks show ?thesis unfolding step by simp
      qed
    qed
  qed
qed

lemma snapshot_types:
  "distinct (map fst (sockets m)) \<Longrightarrow>
   \<forall>(sid, sock) \<in> set (sockets m). types_of m sid = Some (socket_type sock)"
  by (auto simp: types_of_def)

lemma bucket_of_cong: "type_index m' = type_index m \<Longrightarrow> bucket_of m' = bucket_of m"
  by (simp add: bucket_of_def fun_eq_iff)

lemma well_formed_shape:
  assumes "well_formed m" and "types_of m' = types_of m"
    and "map fst (sockets m') = map fst (sockets m)" and "type_index m' = type_index m"
  shows "well_formed m'"
  using assms consistent_cong [of m m'] bucket_of_cong [of m' m]
  by (simp add: well_formed_def)

lemma connect_all_well_formed:
  assumes "well_formed m"
  shows "well_formed (snd (connect_all h m))"
proof -
  define m1 where "m1 = (if hardware m = None
             then m\<lparr> hardware := Some (detect_hardware h),
                     mgr_log := mgr_log m @ [LogHardware (detect_hardware h)] \<rparr>
             else m)"
  have same: "types_of m1 = types_of m" "sockets m1 = sockets m" "type_index m1 = type_index m"
    by (simp_all add: m1_def types_of_def fun_eq_iff)
  have unf: "snd (connect_all h m) = (snd (connect_loop (sockets m) m1 []))\<lparr> mgr_started := True \<rparr>"
    by (simp add: connect_all_def Let_def case_prod_beta m1_def)
  have "\<forall>(sid, sock) \<in> set (sockets m). types_of m1 sid = Some (socket_type sock)"
    using assms snapshot_types [of m] unfolding same by (simp add: well_formed_def)
  from connect_loop_shape [OF this, of "[]"]
  have "types_of (snd (connect_all h m)) = types_of m
    \<and> map fst (sockets (snd (connect_all h m))) = map fst (sockets m)
    \<and> type_index (snd (connect_all h m)) = type_index m"
    unfolding unf by (simp add: same)
  with assms show ?thesis by (blast intro: well_formed_shape)
qed

lemma disconnect_all_well_formed:
  assumes "well_formed m"
  shows "well_formed (disconnect_all m)"
proof -
  have "\<forall>(sid, sock) \<in> set (sockets m). types_of m sid = Some (socket_type sock)"
    using assms snapshot_types [of m] by (simp add: well_formed_def)
  from disconnect_loop_shape [OF this]
  have "types_of (disconnect_all m) = types_of m
    \<and> map fst (sockets (disconnect_all m)) = map fst (sockets m)
    \<and> type_index (disconnect_all m) = type_index m"
    by (simp add: disconnect_all_def)
  with assms show ?thesis by (blast intro: well_formed_shape)
qed

lemma route_signal_well_formed:
  assumes "well_formed m"
  shows "well_formed (snd (route_signal m sg))"
  using assms route_loop_shape [of _ m sg]
  by (auto simp: route_signal_def Let_def intro: well_formed_shape)

lemma register_well_formed: "well_formed m \<Longrightarrow> well_formed (snd (register sock m))"
  by (auto simp: well_formed_def register_consistent)
     (auto simp: register_def Let_def AList.distinct_update split: if_splits)

lemma unregister_well_formed: "well_formed m \<Longrightarrow> well_formed (unregister sid m)"
  by (auto simp: well_formed_def unregister_consistent)
     (auto simp: unregister_def Let_def AList.distinct_delete split: option.splits)

lemma new_manager_well_formed: "well_formed (new_manager mx)"
  by (simp add: well_formed_def new_manager_consistent) (simp add: new_manager_def)

lemma apply_op_well_formed: "well_formed m \<Longrightarrow> well_formed (apply_op x m)"
  by (cases x)
     (simp_all add: register_well_formed unregister_well_formed connect_all_well_formed
       disconnect_all_well_formed route_signal_well_formed)

lemma run_ops_well_formed: "well_formed m \<Longrightarrow> well_formed (run_ops ops m)"
  unfolding run_ops_def by (induction ops arbitrary: m) (simp_all add: apply_op_well_formed)

lemma route_memo_flaky: "route_signal mgr_flaky sig_memo = (sig_memo, mgr_flaky)"
  by (simp add: route_signal_def mgr_flaky_index sig_memo_def create_def)

lemma unregister_flaky:
  "sockets (unregister ''test:flaky'' mgr_flaky)
     = [(''elmer:comprehension'', ComprehensionSocket\<lparr> state := init_state\<lparr> is_connected := True \<rparr> \<rparr>)]"
  "type_index (unregister ''test:flaky'' mgr_flaky) = [(''sensory'', [''elmer:comprehension''])]"
  by (simp_all add: unregister_def mgr_flaky_sockets mgr_flaky_index Let_def)

lemma register_again:
  "snd (register ComprehensionSocket (unregister ''test:flaky'' mgr_flaky))
     = unregister ''test:flaky'' mgr_flaky"
  by (simp add: register_def unregister_flaky)

lemma ops_demo_run:
  "run_ops ops_demo (new_manager 16) = unregister ''test:flaky'' mgr_flaky"
proof -
  have "run_ops ops_demo (new_manager 16)
      = snd (register ComprehensionSocket
          (unregister ''test:flaky'' (snd (route_signal mgr_flaky sig_memo))))"
    by (simp add: run_ops_def ops_demo_def mgr_flaky_def)
  then show ?thesis by (simp add: route_memo_flaky register_again)
qed

text \<open>
  Claim C5. After every sequence of \<^verbatim>\<open>register\<close> and \<^verbatim>\<open>unregister\<close> operations on a new
  manager, also when \<^verbatim>\<open>connect_all\<close>, \<^verbatim>\<open>disconnect_all\<close> and \<^verbatim>\<open>route_signal\<close> calls are
  interleaved, every id in a type bucket is registered, and every registered socket's
  id occurs exactly once in the bucket of the socket's type and in no other bucket.
\<close>

theorem registry_index_consistent: "consistent (run_ops ops (new_manager mx))"
  using run_ops_well_formed [OF new_manager_well_formed, of ops mx]
  by (simp add: well_formed_def)


theorem registry_index_consistent_witness:
  "consistent (unregister ''test:flaky'' mgr_flaky)
   \<and> type_index (unregister ''test:flaky'' mgr_flaky) = [(''sensory'', [''elmer:comprehension''])]
   \<and> map fst (sockets (unregister ''test:flaky'' mgr_flaky)) = [''elmer:comprehension'']"
  using registry_index_consistent [of ops_demo 16]
  by (simp add: ops_demo_run unregister_flaky)

end
